theory Spec2Isabelle
  imports Main "HOL-Library.AList"
begin

section \<open>JavaScript strings\<close>

text \<open>
  A string is a \<^typ>\<open>string\<close>, each character standing for the UTF-16 code unit of
  the same number, so the strings of the model are the JavaScript strings of code units
  below 256. On them white space (\<^verbatim>\<open>\s\<close>, \<^verbatim>\<open>trim\<close>) is the six ASCII white-space
  characters and the no-break space U+00A0; the other white-space characters of
  JavaScript (U+FEFF, U+2028, U+2029 and the space separators from U+1680 on) lie beyond
  this range. \<^verbatim>\<open>toLowerCase\<close> and \<^verbatim>\<open>toUpperCase\<close> change the ASCII letters and the
  letters U+00C0 to U+00DE and U+00E0 to U+00FE (without the signs U+00D7 and U+00F7),
  and \<^verbatim>\<open>toUpperCase\<close> turns U+00DF into \<^verbatim>\<open>SS\<close>. Two characters have an upper case
  beyond the range, U+00B5 and U+00FF; \<open>upper_char\<close> leaves them as they are. The
  source upper-cases a string only to compare it with \<^verbatim>\<open>GET\<close> or to lower-case it
  again, so the two matter in one place alone: the lower-cased tag name of an element
  whose tag name holds U+00B5.
\<close>

definition is_space :: "char \<Rightarrow> bool" where
  "is_space c =
     (c \<in> set [CHR '' '', CHR 0x09, CHR 0x0A, CHR 0x0B, CHR 0x0C, CHR 0x0D, CHR 0xA0])"

definition upper_letters :: string where
  "upper_letters = ''ABCDEFGHIJKLMNOPQRSTUVWXYZ''"

definition lower_letters :: string where
  "lower_letters = ''abcdefghijklmnopqrstuvwxyz''"

definition digits :: string where
  "digits = ''0123456789''"

definition latin1_upper :: string where
  "latin1_upper =
     [CHR 0xC0, CHR 0xC1, CHR 0xC2, CHR 0xC3, CHR 0xC4, CHR 0xC5, CHR 0xC6, CHR 0xC7, CHR 0xC8, CHR 0xC9, CHR 0xCA, CHR 0xCB,
      CHR 0xCC, CHR 0xCD, CHR 0xCE, CHR 0xCF, CHR 0xD0, CHR 0xD1, CHR 0xD2, CHR 0xD3, CHR 0xD4, CHR 0xD5, CHR 0xD6, CHR 0xD8,
      CHR 0xD9, CHR 0xDA, CHR 0xDB, CHR 0xDC, CHR 0xDD, CHR 0xDE]"

definition latin1_lower :: string where
  "latin1_lower =
     [CHR 0xE0, CHR 0xE1, CHR 0xE2, CHR 0xE3, CHR 0xE4, CHR 0xE5, CHR 0xE6, CHR 0xE7, CHR 0xE8, CHR 0xE9, CHR 0xEA, CHR 0xEB,
      CHR 0xEC, CHR 0xED, CHR 0xEE, CHR 0xEF, CHR 0xF0, CHR 0xF1, CHR 0xF2, CHR 0xF3, CHR 0xF4, CHR 0xF5, CHR 0xF6, CHR 0xF8,
      CHR 0xF9, CHR 0xFA, CHR 0xFB, CHR 0xFC, CHR 0xFD, CHR 0xFE]"

definition lower_char :: "char \<Rightarrow> char" where
  "lower_char c =
     (case map_of (zip (upper_letters @ latin1_upper) (lower_letters @ latin1_lower)) c of
        Some d \<Rightarrow> d
      | None \<Rightarrow> c)"

definition upper_char :: "char \<Rightarrow> string" where
  "upper_char c =
     (if c = CHR 0xDF then ''SS''
      else case map_of (zip (lower_letters @ latin1_lower) (upper_letters @ latin1_upper)) c of
             Some d \<Rightarrow> [d]
           | None \<Rightarrow> [c])"

definition toLowerCase :: "string \<Rightarrow> string" where
  "toLowerCase s = map lower_char s"

definition toUpperCase :: "string \<Rightarrow> string" where
  "toUpperCase s = concat (map upper_char s)"

definition is_letter :: "char \<Rightarrow> bool" where
  "is_letter c = (c \<in> set (lower_letters @ upper_letters))"

text \<open>The character class \<^verbatim>\<open>[a-zA-Z0-9_]\<close>.\<close>

definition is_word_char :: "char \<Rightarrow> bool" where
  "is_word_char c = (c \<in> set (lower_letters @ upper_letters @ digits @ ''_''))"

definition trim :: "string \<Rightarrow> string" where
  "trim s = rev (dropWhile is_space (rev (dropWhile is_space s)))"

text \<open>\<^verbatim>\<open>s.replace(/\s+/g, '_')\<close>: every maximal run of white space becomes one underscore.\<close>

function collapse_spaces :: "string \<Rightarrow> string" where
  "collapse_spaces [] = []"
| "collapse_spaces (c # cs) =
     (if is_space c then CHR ''_'' # collapse_spaces (dropWhile is_space cs)
      else c # collapse_spaces cs)"
  by pat_completeness auto
termination
  by (relation "measure length") (auto simp: less_Suc_eq_le length_dropWhile_le)

text \<open>\<^verbatim>\<open>s.replace(/\s/g, '_')\<close>: every white-space character becomes an underscore.\<close>

definition replace_each_space :: "string \<Rightarrow> string" where
  "replace_each_space s = map (\<lambda>c. if is_space c then CHR ''_'' else c) s"

text \<open>\<^verbatim>\<open>s.replace(/[^a-zA-Z0-9_]/g, '')\<close>.\<close>

definition strip_non_word :: "string \<Rightarrow> string" where
  "strip_non_word s = filter is_word_char s"

text \<open>\<^verbatim>\<open>s.slice(0, n)\<close>.\<close>

definition slice0 :: "nat \<Rightarrow> 'a list \<Rightarrow> 'a list" where
  "slice0 n s = take n s"

text \<open>\<^verbatim>\<open>s.startsWith(p)\<close> and \<^verbatim>\<open>s.includes(p)\<close>.\<close>

fun startsWith :: "string \<Rightarrow> string \<Rightarrow> bool" where
  "startsWith s [] = True"
| "startsWith [] (p # ps) = False"
| "startsWith (c # cs) (p # ps) = (c = p \<and> startsWith cs ps)"

fun str_includes :: "string \<Rightarrow> string \<Rightarrow> bool" where
  "str_includes [] p = (p = [])"
| "str_includes (c # cs) p = (startsWith (c # cs) p \<or> str_includes cs p)"

text \<open>
  \<^verbatim>\<open>a || d\<close> for an attribute value \<open>a\<close> that is a string or \<^verbatim>\<open>undefined\<close>:
  the empty string is falsy.
\<close>

definition truthy :: "string option \<Rightarrow> bool" where
  "truthy a = (case a of None \<Rightarrow> False | Some v \<Rightarrow> v \<noteq> [])"

definition or_else :: "string option \<Rightarrow> string \<Rightarrow> string" where
  "or_else a d = (case a of None \<Rightarrow> d | Some v \<Rightarrow> if v = [] then d else v)"

definition or_null :: "string option \<Rightarrow> string option" where
  "or_null a = (case a of None \<Rightarrow> None | Some v \<Rightarrow> if v = [] then None else Some v)"

text \<open>Number to string conversion, as in \<^verbatim>\<open>'_' + n\<close> for a non-negative integer.\<close>

definition digit_char :: "nat \<Rightarrow> char" where
  "digit_char d = digits ! d"

fun string_of_nat :: "nat \<Rightarrow> string" where
  "string_of_nat n =
     (if n < 10 then [digit_char n] else string_of_nat (n div 10) @ [digit_char (n mod 10)])"

declare string_of_nat.simps [simp del]

section \<open>JavaScript objects\<close>

text \<open>
  An object that starts as \<^verbatim>\<open>{}\<close> and is filled by \<^verbatim>\<open>obj[k] = v\<close> is the list of its
  own entries in the order of \<^verbatim>\<open>Object.entries\<close>: the keys that are array indices
  (decimal numerals without a leading zero, below 4294967295) in ascending order, then
  the other keys in the order of their creation. An assignment to an existing key
  replaces the value in place. An assignment to the key \<^verbatim>\<open>__proto__\<close> reaches the
  setter inherited from \<^verbatim>\<open>Object.prototype\<close> and creates no entry.

  Numerals without leading zeros are compared as numbers by comparing their lengths
  and, at equal length, their digits from the left.
\<close>

definition digit_value :: "char \<Rightarrow> nat" where
  "digit_value c = length (takeWhile (\<lambda>d. d \<noteq> c) digits)"

fun digits_less :: "string \<Rightarrow> string \<Rightarrow> bool" where
  "digits_less (a # as) (b # bs) =
     (digit_value a < digit_value b \<or> (digit_value a = digit_value b \<and> digits_less as bs))"
| "digits_less as bs = False"

definition numeral_less :: "string \<Rightarrow> string \<Rightarrow> bool" where
  "numeral_less a b = (length a < length b \<or> (length a = length b \<and> digits_less a b))"

definition is_array_index :: "string \<Rightarrow> bool" where
  "is_array_index k =
     (k \<noteq> [] \<and> list_all (\<lambda>c. c \<in> set digits) k \<and> (k = ''0'' \<or> hd k \<noteq> CHR ''0'')
      \<and> numeral_less k ''4294967295'')"

fun insert_index :: "string \<Rightarrow> 'v \<Rightarrow> (string \<times> 'v) list \<Rightarrow> (string \<times> 'v) list" where
  "insert_index k v [] = [(k, v)]"
| "insert_index k v (e # rest) =
     (if is_array_index (fst e) \<and> numeral_less (fst e) k then e # insert_index k v rest
      else (k, v) # e # rest)"

definition js_set :: "string \<Rightarrow> 'v \<Rightarrow> (string \<times> 'v) list \<Rightarrow> (string \<times> 'v) list" where
  "js_set k v obj =
     (if k = ''__proto__'' then obj
      else if k \<in> set (map fst obj) then AList.update k v obj
      else if is_array_index k then insert_index k v obj
      else obj @ [(k, v)])"

section \<open>The parsed document\<close>

text \<open>
  \<^verbatim>\<open>cheerio.load(html)\<close> gives a tree of elements and text nodes. Tag and attribute
  names are lower case, as the HTML parser leaves them; of a repeated attribute the
  first is kept.
\<close>

datatype node =
  Element string "(string \<times> string) list" "node list"
| TextNode string

type_synonym dom = "node list"

fun tag_of :: "node \<Rightarrow> string" where
  "tag_of (Element t as cs) = t"
| "tag_of (TextNode s) = []"

fun attribs :: "node \<Rightarrow> (string \<times> string) list" where
  "attribs (Element t as cs) = as"
| "attribs (TextNode s) = []"

fun children :: "node \<Rightarrow> node list" where
  "children (Element t as cs) = cs"
| "children (TextNode s) = []"

text \<open>\<^verbatim>\<open>$el.text()\<close>: the text nodes below the element, concatenated.\<close>

fun text_of :: "node \<Rightarrow> string" where
  "text_of (TextNode s) = s"
| "text_of (Element t as cs) = concat (map text_of cs)"

text \<open>
  \<^verbatim>\<open>$el.attr(name)\<close>, \<^verbatim>\<open>undefined\<close> as \<open>None\<close>. Cheerio answers a present
  boolean attribute with its name, an \<^verbatim>\<open>option\<close>'s missing \<^verbatim>\<open>value\<close> with its text
  and a radio or checkbox input's missing \<^verbatim>\<open>value\<close> with \<^verbatim>\<open>on\<close>.
\<close>

definition boolean_attributes :: "string list" where
  "boolean_attributes =
     [''autofocus'', ''autoplay'', ''async'', ''checked'', ''controls'', ''defer'',
      ''disabled'', ''hidden'', ''loop'', ''multiple'', ''open'', ''readonly'',
      ''required'', ''scoped'', ''selected'']"

definition attr :: "node \<Rightarrow> string \<Rightarrow> string option" where
  "attr el name =
     (case map_of (attribs el) name of
        Some v \<Rightarrow> Some (if toLowerCase name \<in> set boolean_attributes then name else v)
      | None \<Rightarrow>
          if tag_of el = ''option'' \<and> name = ''value'' then Some (text_of el)
          else if tag_of el = ''input'' \<and> name = ''value''
                  \<and> map_of (attribs el) ''type'' \<in> {Some ''radio'', Some ''checkbox''}
          then Some ''on''
          else None)"

text \<open>\<^verbatim>\<open>$el.prop('tagName')\<close>: the tag name in upper case.\<close>

definition prop_tagName :: "node \<Rightarrow> string" where
  "prop_tagName el = toUpperCase (tag_of el)"

subsection \<open>Selectors\<close>

text \<open>
  The selectors the source uses: a tag name, \<^verbatim>\<open>[a]\<close>, \<^verbatim>\<open>[a="v"]\<close>, \<^verbatim>\<open>[a*="v"]\<close>,
  a tag name with one of these, and comma-separated unions (a list). The value of
  the \<^verbatim>\<open>type\<close> attribute is compared without regard to case, as the selector
  engine does for HTML documents.
\<close>

datatype selector =
  Tag string
| HasAttr string
| AttrEq string string
| AttrContains string string
| Both selector selector

fun matches1 :: "selector \<Rightarrow> node \<Rightarrow> bool" where
  "matches1 sel (TextNode s) = False"
| "matches1 (Tag t) (Element n as cs) = (n = t)"
| "matches1 (HasAttr a) (Element n as cs) = (map_of as a \<noteq> None)"
| "matches1 (AttrEq a v) (Element n as cs) =
     (case map_of as a of
        None \<Rightarrow> False
      | Some w \<Rightarrow> if a = ''type'' then toLowerCase w = toLowerCase v else w = v)"
| "matches1 (AttrContains a v) (Element n as cs) =
     (case map_of as a of None \<Rightarrow> False | Some w \<Rightarrow> v \<noteq> [] \<and> str_includes w v)"
| "matches1 (Both s1 s2) (Element n as cs) =
     (matches1 s1 (Element n as cs) \<and> matches1 s2 (Element n as cs))"

definition matches :: "selector list \<Rightarrow> node \<Rightarrow> bool" where
  "matches sels el = list_ex (\<lambda>s. matches1 s el) sels"

text \<open>
  The elements of a subtree in document order, each paired with the answer to
  \<^verbatim>\<open>$el.closest('form').length > 0\<close>: the element or one of its ancestors is a form.
  The argument \<open>inF\<close> says whether an ancestor of the subtree is one.
\<close>

fun elements_in :: "bool \<Rightarrow> node \<Rightarrow> (node \<times> bool) list" where
  "elements_in inF (TextNode s) = []"
| "elements_in inF (Element t as cs) =
     (Element t as cs, inF \<or> t = ''form'')
       # concat (map (elements_in (inF \<or> t = ''form'')) cs)"

definition all_elements :: "dom \<Rightarrow> (node \<times> bool) list" where
  "all_elements d = concat (map (elements_in False) d)"

text \<open>\<^verbatim>\<open>$(selector)\<close>: the matching elements of the document, in document order.\<close>

definition select :: "dom \<Rightarrow> selector list \<Rightarrow> node list" where
  "select d sels = filter (matches sels) (map fst (all_elements d))"

definition select_ctx :: "dom \<Rightarrow> selector list \<Rightarrow> (node \<times> bool) list" where
  "select_ctx d sels = filter (\<lambda>(el, inF). matches sels el) (all_elements d)"

text \<open>\<^verbatim>\<open>$el.find(selector)\<close>: the matching descendants, in document order.\<close>

definition find_in :: "node \<Rightarrow> selector list \<Rightarrow> node list" where
  "find_in el sels = select (children el) sels"

text \<open>\<^verbatim>\<open>$sel.first().text()\<close> and \<^verbatim>\<open>$sel.text()\<close> of a selection.\<close>

definition first_text :: "node list \<Rightarrow> string" where
  "first_text els = (case els of [] \<Rightarrow> [] | el # _ \<Rightarrow> text_of el)"

definition selection_text :: "node list \<Rightarrow> string" where
  "selection_text els = concat (map text_of els)"

section \<open>The structural extractor (domParser.js)\<close>

text \<open>
  The \<^verbatim>\<open>type\<close> of a field is a type name (a string) or, when \<^verbatim>\<open>inputTypeToSchema\<close>
  is given a key that its table inherits from \<^verbatim>\<open>Object.prototype\<close>, the inherited
  member of that name.
\<close>

datatype schema_value =
  TypeName string
| Inherited string

record FieldRecord =
  fld_name :: string
  fld_type :: schema_value
  fld_required :: bool

record FormRecord =
  frm_action :: string
  frm_method :: string
  frm_inputs :: "FieldRecord list"
  frm_submitLabel :: string
  frm_id :: "string option"
  frm_className :: "string option"

record ButtonRecord =
  btn_text :: string
  btn_id :: "string option"
  btn_className :: "string option"
  btn_tag :: string
  btn_type :: string
  btn_inForm :: bool

record LinkRecord =
  lnk_href :: string
  lnk_text :: string
  lnk_className :: "string option"
  lnk_id :: "string option"

record Groups =
  forms :: "FormRecord list"
  buttons :: "ButtonRecord list"
  links :: "LinkRecord list"

text \<open>
  \<^verbatim>\<open>inputTypeToSchema\<close>: \<^verbatim>\<open>map[type] || 'string'\<close>. The table \<^verbatim>\<open>map\<close> is an object
  literal, so besides its own keys the lookup finds the members it inherits from
  \<^verbatim>\<open>Object.prototype\<close>, all of them truthy: for such a key the result is that member
  (a function, or for \<^verbatim>\<open>__proto__\<close> the prototype itself), not a type name.
\<close>

definition inputTypeToSchema_map :: "(string \<times> string) list" where
  "inputTypeToSchema_map =
     [(''text'', ''string''), (''email'', ''string''), (''password'', ''string''),
      (''number'', ''number''), (''tel'', ''string''), (''url'', ''string''),
      (''hidden'', ''string''), (''checkbox'', ''boolean''), (''radio'', ''string''),
      (''date'', ''string''), (''datetime'', ''string''), (''search'', ''string'')]"

definition object_prototype_keys :: "string list" where
  "object_prototype_keys =
     [''constructor'', ''__defineGetter__'', ''__defineSetter__'', ''hasOwnProperty'',
      ''__lookupGetter__'', ''__lookupSetter__'', ''isPrototypeOf'', ''propertyIsEnumerable'',
      ''toString'', ''valueOf'', ''__proto__'', ''toLocaleString'']"

definition inputTypeToSchema :: "string \<Rightarrow> schema_value" where
  "inputTypeToSchema ty =
     (case map_of inputTypeToSchema_map ty of
        Some t \<Rightarrow> TypeName (or_else (Some t) ''string'')
      | None \<Rightarrow>
          if ty \<in> set object_prototype_keys then Inherited ty else TypeName ''string'')"

text \<open>
  The type of a field, line 91 of the extractor:
  \<^verbatim>\<open>($inp.attr('type') || $inp.prop('tagName').toLowerCase() === 'select' ? 'select' : 'text').toLowerCase()\<close>.
  The conditional operator binds weaker than \<^verbatim>\<open>||\<close>, so the condition is
  \<^verbatim>\<open>attr('type') || (tagName === 'select')\<close> and the value is one of the two literals.
\<close>

definition field_type :: "node \<Rightarrow> string" where
  "field_type inp =
     toLowerCase
       (if truthy (attr inp ''type'') \<or> toLowerCase (prop_tagName inp) = ''select''
        then ''select'' else ''text'')"

definition extract_field :: "node \<Rightarrow> FieldRecord option" where
  "extract_field inp =
     (if \<not> truthy (attr inp ''name'') then None
      else let ty = field_type inp in
        Some \<lparr> fld_name = the (attr inp ''name''),
               fld_type = (if ty = ''select'' then TypeName ''string'' else inputTypeToSchema ty),
               fld_required = truthy (attr inp ''required'') \<rparr>)"

definition form_method :: "node \<Rightarrow> string" where
  "form_method el = toUpperCase (or_else (attr el ''method'') ''get'')"

definition submit_selectors :: "selector list" where
  "submit_selectors =
     [Both (Tag ''button'') (AttrEq ''type'' ''submit''),
      Both (Tag ''input'') (AttrEq ''type'' ''submit'')]"

definition field_selectors :: "selector list" where
  "field_selectors = [Tag ''input'', Tag ''select'', Tag ''textarea'']"

definition extract_form :: "node \<Rightarrow> FormRecord" where
  "extract_form el =
     (let action = or_else (attr el ''action'') [];
          method = form_method el;
          inputs = List.map_filter extract_field (find_in el field_selectors);
          submitText =
            (let t = trim (first_text (find_in el submit_selectors))
             in if t = [] then ''submit'' else t)
      in \<lparr> frm_action = action,
           frm_method = (if method = ''GET'' then ''GET'' else ''POST''),
           frm_inputs = inputs,
           frm_submitLabel = submitText,
           frm_id = or_null (attr el ''id''),
           frm_className = or_null (attr el ''class'') \<rparr>)"

definition buttonSelectors :: "selector list" where
  "buttonSelectors =
     [Tag ''button'',
      Both (Tag ''input'') (AttrEq ''type'' ''button''),
      Both (Tag ''input'') (AttrEq ''type'' ''submit''),
      Both (Tag ''input'') (AttrEq ''type'' ''image''),
      AttrEq ''role'' ''button'',
      Both (Tag ''a'') (AttrContains ''class'' ''btn''),
      Both (Tag ''a'') (AttrContains ''class'' ''button''),
      HasAttr ''data-action'',
      HasAttr ''data-submit'',
      HasAttr ''onclick'']"

text \<open>The chain \<^verbatim>\<open>a || b || ... || ''\<close> over strings and \<^verbatim>\<open>undefined\<close>.\<close>

fun first_truthy :: "string option list \<Rightarrow> string" where
  "first_truthy [] = []"
| "first_truthy (a # as) = (if truthy a then the a else first_truthy as)"

definition extract_button :: "node \<times> bool \<Rightarrow> ButtonRecord" where
  "extract_button p =
     (case p of (el, inF) \<Rightarrow>
        \<lparr> btn_text =
            trim (first_truthy
              [Some (trim (text_of el)), attr el ''value'', attr el ''aria-label'',
               attr el ''title'', attr el ''data-label'', attr el ''data-action'',
               attr el ''alt'']),
          btn_id = or_null (attr el ''id''),
          btn_className = or_null (attr el ''class''),
          btn_tag = (if prop_tagName el \<noteq> [] then toLowerCase (prop_tagName el) else []),
          btn_type = toLowerCase (or_else (attr el ''type'') []),
          btn_inForm = inF \<rparr>)"

text \<open>\<^verbatim>\<open>/^\s*javascript\s*:/i.test(href)\<close>.\<close>

definition is_javascript_href :: "string \<Rightarrow> bool" where
  "is_javascript_href href =
     (let s = toLowerCase (dropWhile is_space href)
      in startsWith s ''javascript''
         \<and> startsWith (dropWhile is_space (drop (length ''javascript'') s)) '':'')"

definition extract_link :: "node \<Rightarrow> LinkRecord option" where
  "extract_link el =
     (let href = trim (or_else (attr el ''href'') [])
      in if href = [] \<or> href = ''#'' \<or> startsWith href ''#'' \<or> is_javascript_href href
         then None
         else Some \<lparr> lnk_href = href,
                     lnk_text = trim (text_of el),
                     lnk_className = or_null (attr el ''class''),
                     lnk_id = or_null (attr el ''id'') \<rparr>)"

definition extractInteractiveGroups :: "dom \<Rightarrow> Groups" where
  "extractInteractiveGroups d =
     \<lparr> forms = map extract_form (select d [Tag ''form'']),
       buttons = map extract_button (select_ctx d buttonSelectors),
       links = List.map_filter extract_link (select d [Both (Tag ''a'') (HasAttr ''href'')]) \<rparr>"

section \<open>The contract synthesizer (contractGenerator.js)\<close>

record ActionRecord =
  act_action :: string
  act_method :: string
  act_endpoint :: string
  act_schema :: "(string \<times> schema_value) list"
  act_description :: string

record Contract =
  contractName :: string
  actions :: "ActionRecord list"

record Options =
  opt_context :: "string option"

definition AGENT_PREFIX :: string where
  "AGENT_PREFIX = ''/agent''"

text \<open>\<^verbatim>\<open>/^[a-zA-Z0-9_]+$/.test(s)\<close>.\<close>

definition is_word :: "string \<Rightarrow> bool" where
  "is_word s = (s \<noteq> [] \<and> list_all is_word_char s)"

definition inferContractName :: "dom \<Rightarrow> string option \<Rightarrow> string" where
  "inferContractName d contextHint =
     (if truthy contextHint \<and> is_word (replace_each_space (the contextHint))
      then replace_each_space (the contextHint)
      else let title = trim (selection_text (select d [Tag ''title''])) in
        if title \<noteq> []
        then (let n = slice0 40 (strip_non_word (collapse_spaces title))
              in if n = [] then ''pageActions'' else n)
        else ''pageActions'')"

definition slug :: "string \<Rightarrow> string" where
  "slug name = toLowerCase (strip_non_word (collapse_spaces name))"

text \<open>
  \<^verbatim>\<open>buildSchemaFromInputs\<close>: the object filled by \<^verbatim>\<open>schema[name] = {type, required}\<close>.
  The action's schema, \<^verbatim>\<open>Object.fromEntries\<close> of its entries with the value replaced by
  its \<^verbatim>\<open>type\<close>, has the same keys in the same order.
\<close>

definition buildSchemaFromInputs ::
  "FieldRecord list \<Rightarrow> (string \<times> (schema_value \<times> bool)) list" where
  "buildSchemaFromInputs inputs =
     foldl (\<lambda>schema f. js_set (fld_name f) (fld_type f, fld_required f) schema) [] inputs"

fun forms_forEach :: "nat \<Rightarrow> FormRecord list \<Rightarrow> ActionRecord list \<Rightarrow> ActionRecord list" where
  "forms_forEach idx [] acts = acts"
| "forms_forEach idx (form # rest) acts =
     (let actionName =
            (if frm_submitLabel form \<noteq> [] then slug (frm_submitLabel form)
             else ''submitForm_'' @ string_of_nat (idx + 1));
          schema = buildSchemaFromInputs (frm_inputs form)
      in forms_forEach (Suc idx) rest
           (acts @
            [\<lparr> act_action = actionName,
               act_method = frm_method form,
               act_endpoint = AGENT_PREFIX @ ''/'' @ actionName,
               act_schema = map (\<lambda>(k, v). (k, fst v)) schema,
               act_description =
                 (if frm_submitLabel form \<noteq> [] then ''Submit: '' @ frm_submitLabel form
                  else ''Form '' @ string_of_nat (idx + 1)) \<rparr>]))"

subsection \<open>Unique names\<close>

text \<open>
  A \<^verbatim>\<open>Set\<close> of strings is the list of its members in insertion order.
  \<^verbatim>\<open>ensureUnique\<close> tries \<open>baseName\<close>, then \<open>baseName_2\<close>, \<open>baseName_3\<close>, ...
\<close>

definition set_add :: "string \<Rightarrow> string list \<Rightarrow> string list" where
  "set_add x used = (if x \<in> set used then used else used @ [x])"

definition new_Set :: "string list \<Rightarrow> string list" where
  "new_Set xs = foldl (\<lambda>used x. set_add x used) [] xs"

definition candidate :: "string \<Rightarrow> nat \<Rightarrow> string" where
  "candidate baseName n = baseName @ ''_'' @ string_of_nat n"

lemma digit_char_inj: "a < 10 \<Longrightarrow> b < 10 \<Longrightarrow> digit_char a = digit_char b \<Longrightarrow> a = b"
proof -
  assume a: "a < 10" and b: "b < 10" and e: "digit_char a = digit_char b"
  have d: "distinct digits" by (simp add: digits_def)
  have "length digits = 10" by (simp add: digits_def)
  with a b e d show "a = b"
    by (simp add: digit_char_def nth_eq_iff_index_eq)
qed

lemma string_of_nat_nonempty: "string_of_nat n \<noteq> []"
  by (subst string_of_nat.simps) simp

lemma string_of_nat_inj: "string_of_nat m = string_of_nat n \<Longrightarrow> m = n"
proof (induction m arbitrary: n rule: string_of_nat.induct)
  case (1 m)
  show ?case
  proof (cases "m < 10")
    case small: True
    show ?thesis
    proof (cases "n < 10")
      case True
      with small "1.prems" show ?thesis
        by (simp add: string_of_nat.simps [of m] string_of_nat.simps [of n] digit_char_inj)
    next
      case False
      with small "1.prems" string_of_nat_nonempty [of "n div 10"] show ?thesis
        by (simp add: string_of_nat.simps [of m] string_of_nat.simps [of n])
    qed
  next
    case big: False
    show ?thesis
    proof (cases "n < 10")
      case True
      with big "1.prems" string_of_nat_nonempty [of "m div 10"] show ?thesis
        by (simp add: string_of_nat.simps [of m] string_of_nat.simps [of n])
    next
      case False
      with big "1.prems" have
        q: "string_of_nat (m div 10) = string_of_nat (n div 10)" and
        r: "digit_char (m mod 10) = digit_char (n mod 10)"
        by (simp_all add: string_of_nat.simps [of m] string_of_nat.simps [of n])
      from "1.IH" [OF big q] have "m div 10 = n div 10" .
      moreover from r have "m mod 10 = n mod 10"
        by (intro digit_char_inj) simp_all
      ultimately show ?thesis
        by (metis div_mult_mod_eq)
    qed
  qed
qed

lemma candidate_inj: "inj (candidate baseName)"
  by (rule injI) (simp add: candidate_def string_of_nat_inj)

lemma finite_taken: "finite {k. n \<le> k \<and> candidate baseName k \<in> set used}"
proof -
  have "finite (candidate baseName -` set used)"
    by (rule finite_vimageI [OF _ candidate_inj]) simp
  moreover have "{k. n \<le> k \<and> candidate baseName k \<in> set used} \<subseteq> candidate baseName -` set used"
    by auto
  ultimately show ?thesis by (rule rev_finite_subset)
qed

function ensureUnique_loop :: "string \<Rightarrow> string list \<Rightarrow> string \<Rightarrow> nat \<Rightarrow> string" where
  "ensureUnique_loop baseName used name n =
     (if name \<in> set used then ensureUnique_loop baseName used (candidate baseName n) (Suc n)
      else name)"
  by pat_completeness auto
termination
proof (relation "measure (\<lambda>(baseName, used, name, n).
         2 * card {k. n \<le> k \<and> candidate baseName k \<in> set used}
         + (if name \<in> set used then 1 else 0))", goal_cases)
  case 1
  show ?case by simp
next
  case (2 baseName used name n)
  let ?A = "\<lambda>i. {k. i \<le> k \<and> candidate baseName k \<in> set used}"
  show ?case
  proof (cases "candidate baseName n \<in> set used")
    case True
    have "?A (Suc n) \<subset> ?A n"
      using True by (auto simp: Suc_le_eq intro: exI [of _ n])
    then have "card (?A (Suc n)) < card (?A n)"
      by (rule psubset_card_mono [OF finite_taken])
    with 2 True show ?thesis by simp
  next
    case False
    have "?A (Suc n) = ?A n"
      using False by (auto simp: Suc_le_eq le_less)
    with 2 False show ?thesis by simp
  qed
qed

declare ensureUnique_loop.simps [simp del]

definition ensureUnique :: "string \<Rightarrow> string list \<Rightarrow> string \<times> string list" where
  "ensureUnique baseName used =
     (let name = ensureUnique_loop baseName used baseName 2 in (name, set_add name used))"

subsection \<open>Buttons and links\<close>

text \<open>\<^verbatim>\<open>(x.text && slug(x.text)) || (x.id && slug(x.id)) || d\<close>.\<close>

definition label_base :: "string \<Rightarrow> string option \<Rightarrow> string \<Rightarrow> string" where
  "label_base txt ident d =
     (if txt \<noteq> [] \<and> slug txt \<noteq> [] then slug txt
      else if ident \<noteq> None \<and> the ident \<noteq> [] \<and> slug (the ident) \<noteq> [] then slug (the ident)
      else d)"

definition button_base :: "ButtonRecord \<Rightarrow> string" where
  "button_base btn = label_base (btn_text btn) (btn_id btn) []"

definition button_description :: "ButtonRecord \<Rightarrow> nat \<Rightarrow> string" where
  "button_description btn idx =
     (if btn_text btn \<noteq> [] then btn_text btn
      else if truthy (btn_id btn) then the (btn_id btn)
      else ''Button '' @ string_of_nat (idx + 1))"

fun buttons_forEach ::
  "string list \<Rightarrow> nat \<Rightarrow> ButtonRecord list \<Rightarrow> ActionRecord list \<times> string list
     \<Rightarrow> ActionRecord list \<times> string list" where
  "buttons_forEach formActionNames idx [] st = st"
| "buttons_forEach formActionNames idx (btn # rest) st =
     (let base = button_base btn in
      if btn_inForm btn \<and> base \<noteq> [] \<and> base \<in> set formActionNames
      then buttons_forEach formActionNames (Suc idx) rest st
      else
        (let (actionName, used) =
               ensureUnique (if base \<noteq> [] then base else ''button_'' @ string_of_nat (idx + 1))
                 (snd st)
         in buttons_forEach formActionNames (Suc idx) rest
              (fst st @
               [\<lparr> act_action = actionName,
                  act_method = ''POST'',
                  act_endpoint = AGENT_PREFIX @ ''/'' @ actionName,
                  act_schema = [],
                  act_description = button_description btn idx \<rparr>],
               used)))"

text \<open>\<^verbatim>\<open>href.replace(/^https?:\/\/[^/]+/, '')\<close>.\<close>

definition strip_origin :: "string \<Rightarrow> string" where
  "strip_origin href =
     (let rest =
            (if startsWith href ''https://'' then Some (drop (length ''https://'') href)
             else if startsWith href ''http://'' then Some (drop (length ''http://'') href)
             else None)
      in case rest of
           None \<Rightarrow> href
         | Some r \<Rightarrow>
             if takeWhile (\<lambda>c. c \<noteq> CHR ''/'') r = [] then href
             else dropWhile (\<lambda>c. c \<noteq> CHR ''/'') r)"

definition pathSlug :: "string \<Rightarrow> string" where
  "pathSlug href =
     (let p = slug (slice0 30 (map (\<lambda>c. if c = CHR ''/'' then CHR ''_'' else c) (strip_origin href)))
      in if p = [] then ''link'' else p)"

definition link_baseName :: "LinkRecord \<Rightarrow> string" where
  "link_baseName link = label_base (lnk_text link) (lnk_id link) (pathSlug (lnk_href link))"

fun links_forEach ::
  "LinkRecord list \<Rightarrow> ActionRecord list \<times> string list \<Rightarrow> ActionRecord list \<times> string list" where
  "links_forEach [] st = st"
| "links_forEach (link # rest) st =
     (let (actionName, used) = ensureUnique (link_baseName link) (snd st)
      in links_forEach rest
           (fst st @
            [\<lparr> act_action = actionName,
               act_method = ''GET'',
               act_endpoint = AGENT_PREFIX @ ''/'' @ actionName,
               act_schema = [],
               act_description =
                 (if lnk_text link \<noteq> [] then lnk_text link else lnk_href link) \<rparr>],
            used))"

definition formActionNames :: "FormRecord list \<Rightarrow> string list" where
  "formActionNames fs =
     new_Set (filter (\<lambda>n. n \<noteq> [])
       (map (\<lambda>f. if frm_submitLabel f \<noteq> [] then slug (frm_submitLabel f) else []) fs))"

text \<open>
  \<^verbatim>\<open>generateContract(html, options)\<close> on the parsed document: the actions of the
  forms, then \<^verbatim>\<open>usedActions\<close> seeded with their names, then the buttons, then the links.
  (The variant of the module that also takes \<^verbatim>\<open>discoveredApis\<close> builds \<^verbatim>\<open>actions\<close> in
  the same way and adds a separate list \<^verbatim>\<open>apiEndpoints\<close>.)
\<close>

definition synthesize :: "Groups \<Rightarrow> ActionRecord list" where
  "synthesize g =
     (let acts = forms_forEach 0 (forms g) [];
          usedActions = new_Set (map act_action acts);
          st1 = buttons_forEach (formActionNames (forms g)) 0 (buttons g) (acts, usedActions);
          st2 = links_forEach (links g) st1
      in fst st2)"

definition generateContract :: "dom \<Rightarrow> Options \<Rightarrow> Contract" where
  "generateContract d options =
     \<lparr> contractName = inferContractName d (opt_context options),
       actions = synthesize (extractInteractiveGroups d) \<rparr>"

section \<open>The network observation normalizer (apiDiscovery.js)\<close>

text \<open>
  A decoded JSON value. Of a number only the tag is looked at. An object is the list of
  its own entries in the order of \<^verbatim>\<open>Object.entries\<close>.
\<close>

datatype json =
  JNull
| JBool bool
| JNumber int
| JString string
| JArray "json list"
| JObject "(string \<times> json) list"

fun typeof :: "json \<Rightarrow> string" where
  "typeof JNull = ''object''"
| "typeof (JBool b) = ''boolean''"
| "typeof (JNumber n) = ''number''"
| "typeof (JString s) = ''string''"
| "typeof (JArray vs) = ''object''"
| "typeof (JObject kvs) = ''object''"

fun isArray :: "json \<Rightarrow> bool" where
  "isArray (JArray vs) = True"
| "isArray v = False"

fun json_truthy :: "json \<Rightarrow> bool" where
  "json_truthy JNull = False"
| "json_truthy (JBool b) = b"
| "json_truthy (JNumber n) = (n \<noteq> 0)"
| "json_truthy (JString s) = (s \<noteq> [])"
| "json_truthy (JArray vs) = True"
| "json_truthy (JObject kvs) = True"

text \<open>\<^verbatim>\<open>Object.entries(obj)\<close> of an object or an array (index keys).\<close>

fun entries :: "json \<Rightarrow> (string \<times> json) list" where
  "entries (JObject kvs) = kvs"
| "entries (JArray vs) = zip (map string_of_nat [0..<length vs]) vs"
| "entries v = []"

text \<open>The type written for one entry: the \<^verbatim>\<open>if\<close> chain in the loop of \<^verbatim>\<open>inferSchemaFromBody\<close>.\<close>

definition entry_type :: "json \<Rightarrow> string" where
  "entry_type v =
     (if v = JNull then ''string''
      else if isArray v then ''array''
      else if typeof v = ''object'' then ''object''
      else typeof v)"

definition inferSchemaFromBody :: "json \<Rightarrow> (string \<times> string) list" where
  "inferSchemaFromBody obj =
     (if obj = JNull \<or> typeof obj \<noteq> ''object'' then [(''_body'', typeof obj)]
      else foldl (\<lambda>schema (k, v). js_set k (entry_type v) schema) [] (entries obj))"

text \<open>
  An intercepted request as the handler reads it: \<^verbatim>\<open>postData()\<close> is a string or
  \<^verbatim>\<open>null\<close>; \<^verbatim>\<open>postDataJSON()\<close> returns a value or throws (\<open>None\<close>). Playwright
  returns \<^verbatim>\<open>null\<close> when there is no body, an object of strings for a form-urlencoded
  body, the parsed value for any other body that is JSON, and throws for the rest.
\<close>

record Request =
  req_resourceType :: string
  req_url :: string
  req_method :: string
  req_postData :: "string option"
  req_postDataJSON :: "json option"
  req_headers :: "(string \<times> string) list"

record DiscoveredApi =
  api_method :: string
  api_url :: string
  api_postDataSample :: "string option"
  api_bodySchema :: "(string \<times> string) list option"
  api_contentType :: "string option"

definition API_RESOURCE_TYPES :: "string list" where
  "API_RESOURCE_TYPES = [''xhr'', ''fetch'']"

definition request_key :: "Request \<Rightarrow> string" where
  "request_key request = req_method request @ '' '' @ req_url request"

text \<open>The record pushed for a request that passed the two early returns.\<close>

definition discovered :: "Request \<Rightarrow> DiscoveredApi" where
  "discovered request =
     (let postData = req_postData request;
          postDataJSON = (case req_postDataJSON request of None \<Rightarrow> JNull | Some j \<Rightarrow> j);
          contentType = or_else (map_of (req_headers request) ''content-type'') []
      in \<lparr> api_method = req_method request,
           api_url = req_url request,
           api_postDataSample = or_null postData,
           api_bodySchema =
             (if json_truthy postDataJSON \<and> typeof postDataJSON = ''object''
              then Some (inferSchemaFromBody postDataJSON) else None),
           api_contentType = or_null (Some (slice0 80 contentType)) \<rparr>)"

text \<open>
  The \<^verbatim>\<open>requestfinished\<close> handler on the state \<open>(discoveredApis, seen)\<close>. It has no
  \<^verbatim>\<open>await\<close>, so each call runs to its end before the next event.
\<close>

definition on_requestfinished ::
  "DiscoveredApi list \<times> string list \<Rightarrow> Request \<Rightarrow> DiscoveredApi list \<times> string list" where
  "on_requestfinished st request =
     (if req_resourceType request \<notin> set API_RESOURCE_TYPES then st
      else if request_key request \<in> set (snd st) then st
      else (fst st @ [discovered request], set_add (request_key request) (snd st)))"

text \<open>
  \<^verbatim>\<open>discoveredApis\<close> as \<^verbatim>\<open>fetchWithApiDiscovery\<close> returns it, after the requests that
  finished within the capture window, in the order of their events.
\<close>

definition discoveredApis :: "Request list \<Rightarrow> DiscoveredApi list" where
  "discoveredApis requests = fst (foldl on_requestfinished ([], []) requests)"

section \<open>The browser session (browserSession.js)\<close>

text \<open>
  The module state is the pair of handles \<^verbatim>\<open>browser\<close> and \<^verbatim>\<open>page\<close>, \<^verbatim>\<open>null\<close> as
  \<open>None\<close>. An exception is a value: \<open>JsError\<close> for \<^verbatim>\<open>throw new Error(message)\<close> of
  the module itself, \<open>PlaywrightError\<close> for a rejection that comes out of a Playwright
  call (a time-out of \<^verbatim>\<open>locator.click\<close>, a failed launch).
\<close>

datatype error =
  JsError string
| PlaywrightError string

datatype locator =
  Css string
| First locator
| Or locator locator
| ByRole string string
| ByText string
| ByLabel string
| ByPlaceholder string

text \<open>
  What the module asks of Playwright, as functions of the handles: each call answers
  with its value or with the message of its rejection.
\<close>

record ('b, 'c, 'p) Playwright =
  chromium_launch :: "bool \<Rightarrow> string list \<Rightarrow> string + 'b"
  newContext :: "'b \<Rightarrow> string + 'c"
  newPage :: "'c \<Rightarrow> string + 'p"
  locator_throws :: "'p \<Rightarrow> string \<Rightarrow> bool"
  locator_click :: "'p \<Rightarrow> locator \<Rightarrow> nat \<Rightarrow> string + unit"
  locator_fill :: "'p \<Rightarrow> locator \<Rightarrow> string \<Rightarrow> nat \<Rightarrow> string + unit"
  page_content :: "'p \<Rightarrow> string + dom"
  page_url :: "'p \<Rightarrow> string"

record ('b, 'p) Session =
  browser :: "'b option"
  page :: "'p option"

record SnapButton =
  sb_type :: string
  sb_text :: string
  sb_tag :: string

record SnapLink =
  sl_type :: string
  sl_text :: string
  sl_href :: string

record SnapInput =
  si_name :: string
  si_label :: string
  si_type :: string

record SnapForm =
  sf_type :: string
  sf_submitLabel :: string
  sf_inputs :: "SnapInput list"

record Snapshot =
  snap_url :: string
  snap_title :: string
  snap_buttons :: "SnapButton list"
  snap_links :: "SnapLink list"
  snap_forms :: "SnapForm list"

text \<open>The result objects: \<^verbatim>\<open>{ok: true, message}\<close>, \<^verbatim>\<open>{ok: true, clicked}\<close>, \<^verbatim>\<open>{ok: true, field, value}\<close>.\<close>

datatype result =
  OkMessage string
| OkClicked string
| OkFilled string string

definition not_launched :: error where
  "not_launched = JsError ''Browser not launched. Call browser_launch first.''"

definition launch ::
  "('b, 'c, 'p) Playwright \<Rightarrow> bool option \<Rightarrow> ('b, 'p) Session
     \<Rightarrow> (error + result) \<times> ('b, 'p) Session" where
  "launch pw options s =
     (if browser s \<noteq> None then (Inr (OkMessage ''Browser already open''), s)
      else
        (let headed = (case options of None \<Rightarrow> False | Some h \<Rightarrow> h) in
         case chromium_launch pw (\<not> headed) (if headed then [] else [''--no-sandbox'']) of
           Inl e \<Rightarrow> (Inl (PlaywrightError e), s)
         | Inr b \<Rightarrow>
             (let s1 = s\<lparr>browser := Some b\<rparr> in
              case newContext pw b of
                Inl e \<Rightarrow> (Inl (PlaywrightError e), s1)
              | Inr c \<Rightarrow>
                  (case newPage pw c of
                     Inl e \<Rightarrow> (Inl (PlaywrightError e), s1)
                   | Inr p \<Rightarrow>
                       (Inr (OkMessage
                          (if headed then ''Browser opened (visible)''
                           else ''Browser opened (headless)'')),
                        s1\<lparr>page := Some p\<rparr>)))))"

text \<open>\<^verbatim>\<open>/^[#.\[]|[a-z]+\[|^input$|^button$/i.test(s) || s.includes('>>')\<close>.\<close>

fun letter_before_bracket :: "string \<Rightarrow> bool" where
  "letter_before_bracket (c # d # cs) =
     ((is_letter c \<and> d = CHR ''['') \<or> letter_before_bracket (d # cs))"
| "letter_before_bracket cs = False"

definition looksLikeSelector :: "string \<Rightarrow> bool" where
  "looksLikeSelector s =
     ((s \<noteq> [] \<and> hd s \<in> set ''#.['')
      \<or> letter_before_bracket s
      \<or> toLowerCase s = ''input''
      \<or> toLowerCase s = ''button''
      \<or> str_includes s ''>>'')"

definition click ::
  "('b, 'c, 'p) Playwright \<Rightarrow> ('b, 'p) Session \<Rightarrow> string \<Rightarrow> error + result" where
  "click pw st descriptionOrSelector =
     (case page st of
        None \<Rightarrow> Inl not_launched
      | Some p \<Rightarrow>
          (let s = trim descriptionOrSelector in
           if s = [] then Inl (JsError ''click: description or selector is required'')
           else
             (let direct =
                    (if looksLikeSelector s \<and> length s < 200 \<and> \<not> locator_throws pw p s
                     then Some (First (Css s)) else None);
                  loc =
                    (case direct of
                       Some l \<Rightarrow> l
                     | None \<Rightarrow>
                         Or (Or (ByRole ''button'' s) (ByRole ''link'' s)) (First (ByText s)))
              in case locator_click pw p loc 10000 of
                   Inl e \<Rightarrow> Inl (PlaywrightError e)
                 | Inr u \<Rightarrow> Inr (OkClicked s))))"

definition fill ::
  "('b, 'c, 'p) Playwright \<Rightarrow> ('b, 'p) Session \<Rightarrow> string \<Rightarrow> string \<Rightarrow> error + result" where
  "fill pw st fieldIdentifier v =
     (case page st of
        None \<Rightarrow> Inl not_launched
      | Some p \<Rightarrow>
          (let ident = trim fieldIdentifier;
               byName =
                 First (Css (''input[name=\"'' @ ident @ ''\"], select[name=\"'' @ ident
                             @ ''\"], textarea[name=\"'' @ ident @ ''\"]''));
               byLabel = First (ByLabel ident);
               byPlaceholder = First (ByPlaceholder ident);
               loc = Or (Or byName byLabel) byPlaceholder
           in case locator_fill pw p loc v 8000 of
                Inl e \<Rightarrow> Inl (PlaywrightError e)
              | Inr u \<Rightarrow> Inr (OkFilled ident v)))"

subsection \<open>The snapshot\<close>

definition snapshot_button :: "node \<Rightarrow> SnapButton option" where
  "snapshot_button el =
     (let txt = slice0 80 (trim (first_truthy
                  [Some (text_of el), attr el ''value'', attr el ''aria-label'']))
      in if txt \<noteq> []
         then Some \<lparr> sb_type = ''button'', sb_text = txt, sb_tag = toLowerCase (prop_tagName el) \<rparr>
         else None)"

definition snapshot_link :: "node \<Rightarrow> SnapLink option" where
  "snapshot_link el =
     (let href = or_else (attr el ''href'') [] in
      if href = [] \<or> href = ''#'' \<or> startsWith href ''javascript:'' then None
      else
        (let txt = slice0 80 (trim (text_of el)) in
         if txt \<noteq> []
         then Some \<lparr> sl_type = ''link'', sl_text = txt, sl_href = slice0 200 href \<rparr>
         else None))"

definition snapshot_input :: "node \<Rightarrow> SnapInput option" where
  "snapshot_input inp =
     (if \<not> truthy (attr inp ''name'') \<or> toLowerCase (or_else (attr inp ''type'') []) = ''hidden''
      then None
      else Some \<lparr> si_name = the (attr inp ''name''),
                  si_label =
                    first_truthy [attr inp ''aria-label'', attr inp ''placeholder'', attr inp ''name''],
                  si_type = toLowerCase (or_else (attr inp ''type'') ''text'') \<rparr>)"

definition snapshot_form :: "node \<Rightarrow> SnapForm" where
  "snapshot_form el =
     (let inputs = List.map_filter snapshot_input (find_in el field_selectors);
          t = trim (first_text (find_in el submit_selectors))
      in \<lparr> sf_type = ''form'',
           sf_submitLabel = (if t = [] then ''Submit'' else t),
           sf_inputs = inputs \<rparr>)"

definition snapshot_button_selectors :: "selector list" where
  "snapshot_button_selectors =
     [Tag ''button'',
      Both (Tag ''input'') (AttrEq ''type'' ''submit''),
      Both (Tag ''input'') (AttrEq ''type'' ''button''),
      AttrEq ''role'' ''button'']"

definition getSnapshot ::
  "('b, 'c, 'p) Playwright \<Rightarrow> ('b, 'p) Session \<Rightarrow> error + Snapshot" where
  "getSnapshot pw st =
     (case page st of
        None \<Rightarrow> Inl not_launched
      | Some p \<Rightarrow>
          (case page_content pw p of
             Inl e \<Rightarrow> Inl (PlaywrightError e)
           | Inr d \<Rightarrow>
               (let buttons = List.map_filter snapshot_button (select d snapshot_button_selectors);
                    links = List.map_filter snapshot_link
                              (select d [Both (Tag ''a'') (HasAttr ''href'')]);
                    forms = map snapshot_form (select d [Tag ''form'']);
                    title = trim (selection_text (select d [Tag ''title'']))
                in Inr \<lparr> snap_url = page_url pw p,
                         snap_title = title,
                         snap_buttons = slice0 50 buttons,
                         snap_links = slice0 80 links,
                         snap_forms = forms \<rparr>)))"

section \<open>Properties of the structural extractor\<close>

subsection \<open>Field types\<close>

lemma toLowerCase_literals:
  "toLowerCase ''select'' = ''select''" "toLowerCase ''text'' = ''text''"
  by code_simp+

lemma inputTypeToSchema_text: "inputTypeToSchema ''text'' = TypeName ''string''"
  by code_simp

lemma extract_field_type: "extract_field inp = Some f \<Longrightarrow> fld_type f = TypeName ''string''"
  by (auto simp: extract_field_def field_type_def Let_def toLowerCase_literals
        inputTypeToSchema_text split: if_splits)

definition quantity_form :: dom where
  "quantity_form =
     [Element ''form'' [(''method'', ''post'')]
        [Element ''input'' [(''name'', ''qty''), (''type'', ''number'')] [],
         Element ''input'' [(''name'', ''gift''), (''type'', ''checkbox'')] []]]"

text \<open>
  C2. The claim: a named field of a form gets its type from the table, so
  \<^verbatim>\<open>type="number"\<close> gives \<^verbatim>\<open>number\<close> and \<^verbatim>\<open>type="checkbox"\<close> gives \<^verbatim>\<open>boolean\<close>.
  The table \<open>inputTypeToSchema\<close> says so, but the extractor never reaches it with the
  attribute: on the form
  \<^verbatim>\<open><form method="post"><input name="qty" type="number"><input name="gift" type="checkbox"></form>\<close>
  both fields are extracted with type \<^verbatim>\<open>string\<close>.
\<close>

theorem field_type_number_is_string:
  "map frm_inputs (forms (extractInteractiveGroups quantity_form)) =
     [[\<lparr>fld_name = ''qty'', fld_type = TypeName ''string'', fld_required = False\<rparr>,
       \<lparr>fld_name = ''gift'', fld_type = TypeName ''string'', fld_required = False\<rparr>]]
   \<and> inputTypeToSchema ''number'' = TypeName ''number''
   \<and> inputTypeToSchema ''checkbox'' = TypeName ''boolean''"
  by code_simp

subsection \<open>The method of a form\<close>

lemma upper_char_nonempty: "upper_char c \<noteq> []"
  by (simp add: upper_char_def split: option.splits)

lemma upper_char_G: "upper_char c = ''G'' \<longleftrightarrow> c = CHR ''g'' \<or> c = CHR ''G''"
  by (auto simp: upper_char_def lower_letters_def upper_letters_def latin1_lower_def
        latin1_upper_def split: if_splits)

lemma upper_char_E: "upper_char c = ''E'' \<longleftrightarrow> c = CHR ''e'' \<or> c = CHR ''E''"
  by (auto simp: upper_char_def lower_letters_def upper_letters_def latin1_lower_def
        latin1_upper_def split: if_splits)

lemma upper_char_T: "upper_char c = ''T'' \<longleftrightarrow> c = CHR ''t'' \<or> c = CHR ''T''"
  by (auto simp: upper_char_def lower_letters_def upper_letters_def latin1_lower_def
        latin1_upper_def split: if_splits)

lemma upper_char_shape: "(\<exists>d. upper_char c = [d]) \<or> upper_char c = ''SS''"
  by (simp add: upper_char_def split: option.splits)

lemma toUpperCase_Nil: "toUpperCase s = [] \<longleftrightarrow> s = []"
  by (cases s) (simp_all add: toUpperCase_def upper_char_nonempty)

lemma toUpperCase_Cons:
  assumes "x \<noteq> CHR ''S''"
  shows "toUpperCase s = x # xs \<longleftrightarrow>
           (\<exists>c cs. s = c # cs \<and> upper_char c = [x] \<and> toUpperCase cs = xs)"
proof (cases s)
  case Nil
  then show ?thesis by (simp add: toUpperCase_def)
next
  case (Cons c cs)
  from upper_char_shape [of c] assms Cons show ?thesis
    by (auto simp: toUpperCase_def)
qed

lemma toUpperCase_GET:
  "toUpperCase s = ''GET'' \<longleftrightarrow>
     s \<in> {''get'', ''geT'', ''gEt'', ''gET'', ''Get'', ''GeT'', ''GEt'', ''GET''}"
proof -
  have "toUpperCase s = ''GET'' \<longleftrightarrow>
          (\<exists>a b c. s = [a, b, c] \<and> upper_char a = ''G'' \<and> upper_char b = ''E''
                   \<and> upper_char c = ''T'')"
    by (auto simp: toUpperCase_Cons toUpperCase_Nil)
  also have "\<dots> \<longleftrightarrow> s \<in> {''get'', ''geT'', ''gEt'', ''gET'', ''Get'', ''GeT'', ''GEt'', ''GET''}"
    unfolding upper_char_G upper_char_E upper_char_T by auto
  finally show ?thesis .
qed

lemma method_not_boolean: "toLowerCase ''method'' \<notin> set boolean_attributes"
  by code_simp

lemma attr_method: "attr el ''method'' = map_of (attribs el) ''method''"
  by (simp add: attr_def method_not_boolean split: option.splits)

text \<open>
  C3, as stated, fails: a form with \<^verbatim>\<open>method="put"\<close> or \<^verbatim>\<open>method="foo"\<close> is
  extracted with method \<^verbatim>\<open>POST\<close>, not \<^verbatim>\<open>GET\<close>.
\<close>

theorem form_method_put_is_post:
  "map frm_method (forms (extractInteractiveGroups [Element ''form'' [(''method'', ''put'')] []]))
     = [''POST'']
   \<and> map frm_method (forms (extractInteractiveGroups [Element ''form'' [(''method'', ''foo'')] []]))
     = [''POST'']
   \<and> ''POST'' \<noteq> ''GET''"
  by code_simp

text \<open>
  C3, amended. The extracted method of a form is \<^verbatim>\<open>GET\<close> exactly when its
  \<^verbatim>\<open>method\<close> attribute is missing, empty, or a spelling of \<^verbatim>\<open>get\<close> in any mix of
  upper and lower case; every other value, \<^verbatim>\<open>post\<close> and malformed values alike,
  gives \<^verbatim>\<open>POST\<close>.
\<close>

theorem form_method_get_iff:
  "frm_method (extract_form el) =
     (if attr el ''method'' = None \<or> attr el ''method'' = Some []
         \<or> (\<exists>v \<in> {''get'', ''geT'', ''gEt'', ''gET'', ''Get'', ''GeT'', ''GEt'', ''GET''}.
               attr el ''method'' = Some v)
      then ''GET'' else ''POST'')"
proof (cases "attr el ''method''")
  case None
  then show ?thesis
    by (simp add: extract_form_def form_method_def or_else_def Let_def)
      (simp add: toUpperCase_GET)
next
  case (Some v)
  then show ?thesis
    by (simp add: extract_form_def form_method_def or_else_def Let_def)
      (auto simp add: toUpperCase_GET)
qed

theorem form_method_get_iff_witness:
  "frm_method (extract_form (Element ''form'' [(''method'', ''Get'')] [])) = ''GET''
   \<and> frm_method (extract_form (Element ''form'' [] [])) = ''GET''
   \<and> frm_method (extract_form (Element ''form'' [(''method'', ''dialog'')] [])) = ''POST''"
  using form_method_get_iff [of "Element ''form'' [(''method'', ''Get'')] []"]
    form_method_get_iff [of "Element ''form'' [] []"]
    form_method_get_iff [of "Element ''form'' [(''method'', ''dialog'')] []"]
  by (simp add: attr_method)

section \<open>Properties of the contract synthesizer\<close>

subsection \<open>Endpoints\<close>

definition endpoint_ok :: "ActionRecord \<Rightarrow> bool" where
  "endpoint_ok a = (act_endpoint a = ''/agent/'' @ act_action a)"

lemma forms_forEach_endpoint:
  "list_all endpoint_ok acts \<Longrightarrow> list_all endpoint_ok (forms_forEach idx fs acts)"
  by (induction fs arbitrary: idx acts) (simp_all add: Let_def endpoint_ok_def AGENT_PREFIX_def)

lemma buttons_forEach_endpoint:
  "list_all endpoint_ok (fst st) \<Longrightarrow> list_all endpoint_ok (fst (buttons_forEach fnames idx bs st))"
  by (induction bs arbitrary: idx st)
     (simp_all add: Let_def endpoint_ok_def AGENT_PREFIX_def split: prod.splits)

lemma links_forEach_endpoint:
  "list_all endpoint_ok (fst st) \<Longrightarrow> list_all endpoint_ok (fst (links_forEach ls st))"
  by (induction ls arbitrary: st)
     (simp_all add: Let_def endpoint_ok_def AGENT_PREFIX_def split: prod.splits)

lemma synthesize_endpoint: "list_all endpoint_ok (synthesize g)"
  unfolding synthesize_def Let_def
  by (intro links_forEach_endpoint buttons_forEach_endpoint) (simp add: forms_forEach_endpoint)

text \<open>
  C10. For every document and every options value, the endpoint of every action in
  the \<open>actions\<close> list of \<open>generateContract\<close> is \<^verbatim>\<open>/agent/\<close> followed by that action's
  own name.
\<close>

theorem generateContract_endpoints:
  "map act_endpoint (actions (generateContract d options)) =
     map (\<lambda>a. ''/agent/'' @ act_action a) (actions (generateContract d options))"
  using synthesize_endpoint [of "extractInteractiveGroups d"]
  by (simp add: generateContract_def list_all_iff endpoint_ok_def)

subsection \<open>Names\<close>

definition two_forms :: dom where
  "two_forms =
     [Element ''form'' [(''action'', ''/search'')] [Element ''input'' [(''name'', ''q'')] []],
      Element ''form'' [(''action'', ''/subscribe'')]
        [Element ''input'' [(''name'', ''email'')] []]]"

text \<open>
  C1. The claim: the action names of one contract are pairwise distinct. The names of
  buttons and links go through \<open>ensureUnique\<close>; the names of forms do not. On the page
  \<^verbatim>\<open><form action="/search"><input name="q"></form><form action="/subscribe"><input name="email"></form>\<close>
  both forms have the default submit label and both actions are named \<^verbatim>\<open>submit\<close>.
\<close>

theorem two_forms_same_name:
  "map act_action (actions (generateContract two_forms \<lparr>opt_context = None\<rparr>))
     = [''submit'', ''submit'']
   \<and> \<not> distinct (map act_action (actions (generateContract two_forms \<lparr>opt_context = None\<rparr>)))"
  by code_simp

subsection \<open>Colliding link names\<close>

text \<open>The actions and \<^verbatim>\<open>usedActions\<close> when the loop over the links starts.\<close>

definition before_links :: "Groups \<Rightarrow> ActionRecord list \<times> string list" where
  "before_links g =
     (let acts = forms_forEach 0 (forms g) [];
          usedActions = new_Set (map act_action acts)
      in buttons_forEach (formActionNames (forms g)) 0 (buttons g) (acts, usedActions))"

definition used_ok :: "ActionRecord list \<times> string list \<Rightarrow> bool" where
  "used_ok st = (set (snd st) = act_action ` set (fst st))"

lemma synthesize_split: "synthesize g = fst (links_forEach (links g) (before_links g))"
  by (simp add: synthesize_def before_links_def Let_def)

lemma set_set_add: "set (set_add x used) = insert x (set used)"
  by (auto simp: set_add_def)

lemma set_foldl_set_add: "set (foldl (\<lambda>used x. set_add x used) acc xs) = set acc \<union> set xs"
  by (induction xs arbitrary: acc) (auto simp: set_set_add)

lemma set_new_Set: "set (new_Set xs) = set xs"
  by (simp add: new_Set_def set_foldl_set_add)

lemma buttons_forEach_used_ok:
  "used_ok st \<Longrightarrow> used_ok (buttons_forEach fnames idx bs st)"
proof (induction bs arbitrary: idx st)
  case Nil
  then show ?case by simp
next
  case (Cons b bs)
  show ?case
  proof (cases "btn_inForm b \<and> button_base b \<noteq> [] \<and> button_base b \<in> set fnames")
    case True
    with Cons show ?thesis by (simp add: Let_def)
  next
    case False
    let ?base = "if button_base b \<noteq> [] then button_base b else ''button_'' @ string_of_nat (idx + 1)"
    obtain name used where e: "ensureUnique ?base (snd st) = (name, used)"
      by (cases "ensureUnique ?base (snd st)")
    then have u: "set used = insert name (set (snd st))"
      by (auto simp: ensureUnique_def Let_def set_set_add)
    let ?a = "\<lparr> act_action = name, act_method = ''POST'',
                act_endpoint = AGENT_PREFIX @ ''/'' @ name, act_schema = [],
                act_description = button_description b idx \<rparr>"
    from Cons.prems u have "used_ok (fst st @ [?a], used)"
      by (simp add: used_ok_def)
    then have "used_ok (buttons_forEach fnames (Suc idx) bs (fst st @ [?a], used))"
      by (rule Cons.IH)
    moreover have "buttons_forEach fnames idx (b # bs) st
                     = buttons_forEach fnames (Suc idx) bs (fst st @ [?a], used)"
      using False by (simp only: buttons_forEach.simps Let_def if_False e prod.case)
    ultimately show ?thesis by (simp only:)
  qed
qed

lemma used_ok_before_links: "used_ok (before_links g)"
  unfolding before_links_def Let_def
  by (rule buttons_forEach_used_ok) (simp add: used_ok_def set_new_Set)

lemma ensureUnique_free: "baseName \<notin> set used \<Longrightarrow> ensureUnique baseName used = (baseName, used @ [baseName])"
  by (simp add: ensureUnique_def ensureUnique_loop.simps [of baseName used baseName] set_add_def)

lemma candidate_2: "candidate baseName 2 = baseName @ ''_2''"
  by (simp add: candidate_def string_of_nat.simps [of 2] digit_char_def digits_def)

lemma ensureUnique_second:
  assumes "baseName \<in> set used" "baseName @ ''_2'' \<notin> set used"
  shows "ensureUnique baseName used = (baseName @ ''_2'', used @ [baseName @ ''_2''])"
proof -
  have "ensureUnique_loop baseName used baseName 2
          = ensureUnique_loop baseName used (candidate baseName 2) (Suc 2)"
    using assms(1) by (subst ensureUnique_loop.simps) simp
  also have "\<dots> = baseName @ ''_2''"
    using assms(2) by (subst ensureUnique_loop.simps) (simp add: candidate_2)
  finally show ?thesis
    using assms(2) by (simp add: ensureUnique_def set_add_def Let_def)
qed

definition link_action :: "LinkRecord \<Rightarrow> string \<Rightarrow> ActionRecord" where
  "link_action link name =
     \<lparr> act_action = name, act_method = ''GET'', act_endpoint = ''/agent/'' @ name,
       act_schema = [],
       act_description = (if lnk_text link \<noteq> [] then lnk_text link else lnk_href link) \<rparr>"

lemma links_forEach_Cons:
  "links_forEach (link # rest) st =
     links_forEach rest
       (fst st @ [link_action link (fst (ensureUnique (link_baseName link) (snd st)))],
        snd (ensureUnique (link_baseName link) (snd st)))"
  by (simp add: link_action_def AGENT_PREFIX_def split: prod.splits)

lemma links_forEach_append:
  "links_forEach (xs @ ys) st = links_forEach ys (links_forEach xs st)"
  by (induction xs arbitrary: st) (simp_all split: prod.splits)

lemma links_forEach_extends:
  "\<exists>new. fst (links_forEach xs st) = fst st @ new \<and> length new = length xs"
proof (induction xs arbitrary: st)
  case Nil
  then show ?case by simp
next
  case (Cons x xs)
  let ?st = "(fst st @ [link_action x (fst (ensureUnique (link_baseName x) (snd st)))],
              snd (ensureUnique (link_baseName x) (snd st)))"
  from Cons.IH [of ?st] obtain new where
    "fst (links_forEach xs ?st) = fst ?st @ new" "length new = length xs"
    by blast
  then have "fst (links_forEach (x # xs) st)
               = fst st @ (link_action x (fst (ensureUnique (link_baseName x) (snd st))) # new)
             \<and> length (link_action x (fst (ensureUnique (link_baseName x) (snd st))) # new)
               = length (x # xs)"
    unfolding links_forEach_Cons by simp
  then show ?case by blast
qed

lemma links_forEach_used_ok: "used_ok st \<Longrightarrow> used_ok (links_forEach xs st)"
proof (induction xs arbitrary: st)
  case Nil
  then show ?case by simp
next
  case (Cons x xs)
  let ?e = "ensureUnique (link_baseName x) (snd st)"
  have "set (snd ?e) = insert (fst ?e) (set (snd st))"
    by (simp add: ensureUnique_def Let_def set_set_add)
  with Cons.prems have "used_ok (fst st @ [link_action x (fst ?e)], snd ?e)"
    by (simp add: used_ok_def link_action_def)
  then have "used_ok (links_forEach xs (fst st @ [link_action x (fst ?e)], snd ?e))"
    by (rule Cons.IH)
  then show ?case unfolding links_forEach_Cons .
qed

text \<open>
  C8, amended. Let \<open>l1\<close> and \<open>l2\<close> be two links of a page, in this order, both without
  text and without id, whose hrefs have the same truncated path slug \<open>X\<close>, and let
  \<open>a1\<close> and \<open>a2\<close> be the actions at their places in the contract. If no other action
  of the contract is named \<open>X\<close> or \<open>X_2\<close>, then \<open>a1\<close> is the link action named \<open>X\<close>
  and \<open>a2\<close> the link action named \<open>X_2\<close>.
\<close>

theorem two_links_same_slug:
  assumes ls: "links (extractInteractiveGroups d) = pre @ l1 # mid @ l2 # post"
    and l1: "lnk_text l1 = []" "lnk_id l1 = None" "pathSlug (lnk_href l1) = X"
    and l2: "lnk_text l2 = []" "lnk_id l2 = None" "pathSlug (lnk_href l2) = X"
    and acts: "actions (generateContract d options) = P1 @ a1 # P2 @ a2 # P3"
    and len: "length P1 = length (fst (before_links (extractInteractiveGroups d))) + length pre"
      "length P2 = length mid"
    and others: "\<forall>a \<in> set P1 \<union> set P2 \<union> set P3. act_action a \<noteq> X \<and> act_action a \<noteq> X @ ''_2''"
  shows "a1 = link_action l1 X \<and> a2 = link_action l2 (X @ ''_2'')"
proof -
  let ?g = "extractInteractiveGroups d"
  let ?st0 = "before_links ?g"
  let ?st1 = "links_forEach pre ?st0"
  let ?e1 = "ensureUnique X (snd ?st1)"
  let ?st2 = "(fst ?st1 @ [link_action l1 (fst ?e1)], snd ?e1)"
  let ?st3 = "links_forEach mid ?st2"
  let ?e2 = "ensureUnique X (snd ?st3)"
  let ?st4 = "(fst ?st3 @ [link_action l2 (fst ?e2)], snd ?e2)"
  let ?st5 = "links_forEach post ?st4"
  from l1 have b1: "link_baseName l1 = X" by (simp add: link_baseName_def label_base_def)
  from l2 have b2: "link_baseName l2 = X" by (simp add: link_baseName_def label_base_def)
  have run: "actions (generateContract d options) = fst ?st5"
    unfolding generateContract_def synthesize_split ls links_forEach_append links_forEach_Cons b1 b2
    by simp
  obtain B1 where B1: "fst ?st1 = fst ?st0 @ B1" "length B1 = length pre"
    using links_forEach_extends [of pre ?st0] by blast
  obtain B3 where B3: "fst ?st3 = fst ?st2 @ B3" "length B3 = length mid"
    using links_forEach_extends [of mid ?st2] by blast
  obtain B5 where B5: "fst ?st5 = fst ?st4 @ B5"
    using links_forEach_extends [of post ?st4] by blast
  have "P1 @ a1 # P2 @ a2 # P3
          = fst ?st1 @ link_action l1 (fst ?e1) # B3 @ link_action l2 (fst ?e2) # B5"
    using acts run B5 B3(1) by simp
  moreover have "length P1 = length (fst ?st1)" using len(1) B1 by simp
  ultimately have P1: "P1 = fst ?st1"
    and rest: "a1 # P2 @ a2 # P3 = link_action l1 (fst ?e1) # B3 @ link_action l2 (fst ?e2) # B5"
    by simp_all
  from rest have a1: "a1 = link_action l1 (fst ?e1)"
    and rest': "P2 @ a2 # P3 = B3 @ link_action l2 (fst ?e2) # B5"
    by simp_all
  from rest' len(2) B3(2) have P2: "P2 = B3" and a2: "a2 = link_action l2 (fst ?e2)"
    by simp_all
  have ok1: "used_ok ?st1"
    by (rule links_forEach_used_ok [OF used_ok_before_links])
  with P1 others have free1: "X \<notin> set (snd ?st1)"
    by (auto simp: used_ok_def)
  then have e1: "?e1 = (X, snd ?st1 @ [X])"
    by (rule ensureUnique_free)
  have "used_ok ?st2"
    using ok1 by (simp add: used_ok_def e1 link_action_def)
  then have ok3: "used_ok ?st3"
    by (rule links_forEach_used_ok)
  have names3: "set (snd ?st3) = act_action ` (set P1 \<union> {a1} \<union> set P2)"
    using ok3 unfolding used_ok_def B3(1) P1 P2 a1 by auto
  have n1: "act_action a1 = X" by (simp add: a1 e1 link_action_def)
  have "X \<in> set (snd ?st3)" unfolding names3 using n1 by force
  moreover have "X @ ''_2'' \<notin> set (snd ?st3)"
    unfolding names3 using n1 others by auto
  ultimately have e2: "?e2 = (X @ ''_2'', snd ?st3 @ [X @ ''_2''])"
    by (rule ensureUnique_second)
  have f1: "fst ?e1 = X" unfolding e1 by simp
  have f2: "fst ?e2 = X @ ''_2''" unfolding e2 by simp
  have "a1 = link_action l1 X" unfolding a1 f1 by (rule refl)
  moreover have "a2 = link_action l2 (X @ ''_2'')" unfolding a2 f2 by (rule refl)
  ultimately show ?thesis by (rule conjI)
qed

definition about_button_links :: dom where
  "about_button_links =
     [Element ''button'' [] [TextNode ''About''],
      Element ''a'' [(''href'', ''about'')] [],
      Element ''a'' [(''href'', ''about'')] []]"

text \<open>
  C8, as stated, fails on a page that has more than the two links: on
  \<^verbatim>\<open><button>About</button><a href="about"></a><a href="about"></a>\<close> the two links
  have no text, no id and the same slug \<^verbatim>\<open>about\<close>, the button has taken that name, and
  the link actions are named \<^verbatim>\<open>about_2\<close> and \<^verbatim>\<open>about_3\<close>.
\<close>

theorem two_links_after_button:
  "links (extractInteractiveGroups about_button_links) =
     [\<lparr>lnk_href = ''about'', lnk_text = [], lnk_className = None, lnk_id = None\<rparr>,
      \<lparr>lnk_href = ''about'', lnk_text = [], lnk_className = None, lnk_id = None\<rparr>]
   \<and> pathSlug ''about'' = ''about''
   \<and> map (\<lambda>a. (act_action a, act_method a))
        (actions (generateContract about_button_links \<lparr>opt_context = None\<rparr>))
       = [(''about'', ''POST''), (''about_2'', ''GET''), (''about_3'', ''GET'')]"
  by code_simp

text \<open>
  The form of the specification's example, a link with a text, and two image links to
  the same path with another link between them.
\<close>

definition about_links :: dom where
  "about_links =
     [Element ''form'' [(''method'', ''post'')]
        [Element ''input'' [(''name'', ''email''), (''type'', ''email''), (''required'', [])] [],
         Element ''button'' [(''type'', ''submit'')] [TextNode ''Join'']],
      Element ''a'' [(''href'', ''/'')] [TextNode ''Home''],
      Element ''a'' [(''href'', ''https://shop.example/about'')]
        [Element ''img'' [(''src'', ''a.png'')] []],
      Element ''a'' [(''href'', ''/contact'')] [TextNode ''Contact''],
      Element ''a'' [(''href'', ''/about'')] []]"

definition about_link_1 :: LinkRecord where
  "about_link_1 =
     \<lparr>lnk_href = ''https://shop.example/about'', lnk_text = [], lnk_className = None,
      lnk_id = None\<rparr>"

definition about_link_2 :: LinkRecord where
  "about_link_2 = \<lparr>lnk_href = ''/about'', lnk_text = [], lnk_className = None, lnk_id = None\<rparr>"

definition about_actions :: "ActionRecord list" where
  "about_actions =
     [\<lparr>act_action = ''join'', act_method = ''POST'', act_endpoint = ''/agent/join'',
       act_schema = [(''email'', TypeName ''string'')], act_description = ''Submit: Join''\<rparr>,
      \<lparr>act_action = ''home'', act_method = ''GET'', act_endpoint = ''/agent/home'',
       act_schema = [], act_description = ''Home''\<rparr>,
      \<lparr>act_action = ''_about'', act_method = ''GET'', act_endpoint = ''/agent/_about'',
       act_schema = [], act_description = ''https://shop.example/about''\<rparr>,
      \<lparr>act_action = ''contact'', act_method = ''GET'', act_endpoint = ''/agent/contact'',
       act_schema = [], act_description = ''Contact''\<rparr>,
      \<lparr>act_action = ''_about_2'', act_method = ''GET'', act_endpoint = ''/agent/_about_2'',
       act_schema = [], act_description = ''/about''\<rparr>]"

theorem two_links_same_slug_witness:
  "actions (generateContract about_links \<lparr>opt_context = None\<rparr>) = about_actions
   \<and> about_actions ! 2 = link_action about_link_1 ''_about''
   \<and> about_actions ! 4 = link_action about_link_2 (''_about'' @ ''_2'')"
proof -
  let ?home = "\<lparr>lnk_href = ''/'', lnk_text = ''Home'', lnk_className = None, lnk_id = None\<rparr>"
  let ?contact = "\<lparr>lnk_href = ''/contact'', lnk_text = ''Contact'', lnk_className = None,
                    lnk_id = None\<rparr>"
  have ls: "links (extractInteractiveGroups about_links)
              = [?home] @ about_link_1 # [?contact] @ about_link_2 # []"
    by code_simp
  have l1: "lnk_text about_link_1 = []" "lnk_id about_link_1 = None"
    "pathSlug (lnk_href about_link_1) = ''_about''"
    by code_simp+
  have l2: "lnk_text about_link_2 = []" "lnk_id about_link_2 = None"
    "pathSlug (lnk_href about_link_2) = ''_about''"
    by code_simp+
  have run: "actions (generateContract about_links \<lparr>opt_context = None\<rparr>) = about_actions"
    by code_simp
  have acts: "actions (generateContract about_links \<lparr>opt_context = None\<rparr>)
                = take 2 about_actions @ about_actions ! 2 # [about_actions ! 3]
                  @ about_actions ! 4 # []"
    unfolding run by code_simp
  have len: "length (take 2 about_actions)
               = length (fst (before_links (extractInteractiveGroups about_links))) + length [?home]"
    by code_simp
  have len': "length [about_actions ! 3] = length [?contact]"
    by simp
  have others: "\<forall>a \<in> set (take 2 about_actions) \<union> set [about_actions ! 3] \<union> set [].
                  act_action a \<noteq> ''_about'' \<and> act_action a \<noteq> ''_about'' @ ''_2''"
    by code_simp
  from two_links_same_slug [OF ls l1 l2 acts len len' others] run show ?thesis
    by simp
qed

subsection \<open>What \<open>ensureUnique\<close> gives\<close>

text \<open>
  The names of the actions of buttons and links are pairwise distinct and differ from
  the names of all form actions; only form actions can share a name.
\<close>

lemma ensureUnique_loop_fresh: "ensureUnique_loop baseName used name n \<notin> set used"
  by (induction baseName used name n rule: ensureUnique_loop.induct)
     (subst ensureUnique_loop.simps, simp)

definition names_ok :: "ActionRecord list \<Rightarrow> ActionRecord list \<times> string list \<Rightarrow> bool" where
  "names_ok F st =
     (used_ok st \<and>
      (\<exists>R. fst st = F @ R \<and> distinct (map act_action R)
           \<and> set (map act_action R) \<inter> set (map act_action F) = {}))"

lemma names_ok_push:
  assumes "names_ok F st" "ensureUnique baseName (snd st) = (name, used)" "act_action a = name"
  shows "names_ok F (fst st @ [a], used)"
proof -
  from assms(1) obtain R where u: "set (snd st) = act_action ` set (fst st)"
    and R: "fst st = F @ R" "distinct (map act_action R)"
      "set (map act_action R) \<inter> set (map act_action F) = {}"
    by (auto simp: names_ok_def used_ok_def)
  from assms(2) have n: "name \<notin> set (snd st)" and s: "set used = insert name (set (snd st))"
    by (auto simp: ensureUnique_def Let_def set_set_add ensureUnique_loop_fresh)
  from n u R(1) have "name \<notin> act_action ` set F" "name \<notin> act_action ` set R" by auto
  with R assms(3) have "fst st @ [a] = F @ (R @ [a])" "distinct (map act_action (R @ [a]))"
    "set (map act_action (R @ [a])) \<inter> set (map act_action F) = {}"
    by auto
  moreover from u s assms(3) have "used_ok (fst st @ [a], used)" by (simp add: used_ok_def)
  ultimately show ?thesis unfolding names_ok_def by (metis fst_conv)
qed

lemma buttons_forEach_names_ok:
  "names_ok F st \<Longrightarrow> names_ok F (buttons_forEach fnames idx bs st)"
proof (induction bs arbitrary: idx st)
  case Nil
  then show ?case by simp
next
  case (Cons b bs)
  show ?case
  proof (cases "btn_inForm b \<and> button_base b \<noteq> [] \<and> button_base b \<in> set fnames")
    case True
    with Cons show ?thesis by (simp add: Let_def)
  next
    case False
    let ?base = "if button_base b \<noteq> [] then button_base b else ''button_'' @ string_of_nat (idx + 1)"
    obtain name used where e: "ensureUnique ?base (snd st) = (name, used)"
      by (cases "ensureUnique ?base (snd st)")
    let ?a = "\<lparr> act_action = name, act_method = ''POST'',
                act_endpoint = AGENT_PREFIX @ ''/'' @ name, act_schema = [],
                act_description = button_description b idx \<rparr>"
    have "names_ok F (fst st @ [?a], used)"
      by (rule names_ok_push [OF Cons.prems e]) simp
    then have "names_ok F (buttons_forEach fnames (Suc idx) bs (fst st @ [?a], used))"
      by (rule Cons.IH)
    moreover have "buttons_forEach fnames idx (b # bs) st
                     = buttons_forEach fnames (Suc idx) bs (fst st @ [?a], used)"
      using False by (simp only: buttons_forEach.simps Let_def if_False e prod.case)
    ultimately show ?thesis by (simp only:)
  qed
qed

lemma links_forEach_names_ok: "names_ok F st \<Longrightarrow> names_ok F (links_forEach ls st)"
proof (induction ls arbitrary: st)
  case Nil
  then show ?case by simp
next
  case (Cons l ls)
  let ?e = "ensureUnique (link_baseName l) (snd st)"
  have "names_ok F (fst st @ [link_action l (fst ?e)], snd ?e)"
    by (rule names_ok_push [OF Cons.prems, of "link_baseName l"]) (simp_all add: link_action_def)
  then have "names_ok F (links_forEach ls (fst st @ [link_action l (fst ?e)], snd ?e))"
    by (rule Cons.IH)
  then show ?case unfolding links_forEach_Cons .
qed

lemma button_and_link_names_distinct:
  "\<exists>R. synthesize g = forms_forEach 0 (forms g) [] @ R
       \<and> distinct (map act_action R)
       \<and> set (map act_action R) \<inter> set (map act_action (forms_forEach 0 (forms g) [])) = {}"
proof -
  let ?F = "forms_forEach 0 (forms g) []"
  have "names_ok ?F (?F, new_Set (map act_action ?F))"
    by (simp add: names_ok_def used_ok_def set_new_Set)
  then have "names_ok ?F (before_links g)"
    unfolding before_links_def Let_def by (rule buttons_forEach_names_ok)
  then have "names_ok ?F (links_forEach (links g) (before_links g))"
    by (rule links_forEach_names_ok)
  then show ?thesis
    by (simp add: names_ok_def synthesize_split)
qed

section \<open>Properties of the network observation normalizer\<close>

subsection \<open>Schema inference\<close>

lemma entry_type_range:
  "entry_type v \<in> {''string'', ''number'', ''boolean'', ''array'', ''object''}"
  by (cases v) (simp_all add: entry_type_def)

lemma map_of_insert_index:
  "k \<notin> fst ` set obj \<Longrightarrow> map_of (insert_index k v obj) = (map_of obj)(k \<mapsto> v)"
proof (induction obj)
  case Nil
  then show ?case by simp
next
  case (Cons e obj)
  then have "k \<noteq> fst e" and "map_of (insert_index k v obj) = (map_of obj)(k \<mapsto> v)"
    by auto
  then show ?case
    by (cases e) (auto simp: fun_upd_twist)
qed

lemma map_of_snoc: "k \<notin> fst ` set obj \<Longrightarrow> map_of (obj @ [(k, v)]) = (map_of obj)(k \<mapsto> v)"
  by (induction obj) (auto simp: fun_upd_twist)

lemma map_of_js_set:
  "map_of (js_set k v obj) = (if k = ''__proto__'' then map_of obj else (map_of obj)(k \<mapsto> v))"
  by (simp add: js_set_def update_conv' map_of_insert_index map_of_snoc del: map_of_append)

lemma map_of_fill:
  "distinct (map fst kvs) \<Longrightarrow>
     map_of (foldl (\<lambda>schema (k, v). js_set k (f v) schema) acc kvs) k
       = (if k \<noteq> ''__proto__'' \<and> k \<in> fst ` set kvs then map_option f (map_of kvs k)
          else map_of acc k)"
proof (induction kvs arbitrary: acc)
  case Nil
  then show ?case by simp
next
  case (Cons e kvs)
  obtain k0 v0 where e: "e = (k0, v0)" by (cases e)
  from Cons.prems e have d: "distinct (map fst kvs)" and new: "k0 \<notin> fst ` set kvs" by auto
  have "map_of (foldl (\<lambda>schema (k, v). js_set k (f v) schema) acc (e # kvs)) k
          = (if k \<noteq> ''__proto__'' \<and> k \<in> fst ` set kvs then map_option f (map_of kvs k)
             else map_of (js_set k0 (f v0) acc) k)"
    by (simp add: e Cons.IH [OF d])
  also have "\<dots> = (if k \<noteq> ''__proto__'' \<and> k \<in> fst ` set (e # kvs)
                     then map_option f (map_of (e # kvs) k) else map_of acc k)"
  proof (cases "k = k0")
    case True
    with new show ?thesis by (simp add: e map_of_js_set)
  next
    case False
    then show ?thesis by (simp add: e map_of_js_set)
  qed
  finally show ?case .
qed

lemma array_keys_distinct: "distinct (map fst (entries (JArray vs)))"
proof -
  have "inj_on string_of_nat (set [0..<length vs])"
    by (rule inj_onI) (rule string_of_nat_inj)
  then show ?thesis by (simp add: distinct_map)
qed

lemma inferSchemaFromBody_lookup:
  assumes "body \<noteq> JNull" "typeof body = ''object''" "distinct (map fst (entries body))"
  shows "map_of (inferSchemaFromBody body) k
           = (if k \<noteq> ''__proto__'' \<and> k \<in> fst ` set (entries body)
              then map_option entry_type (map_of (entries body) k) else None)"
proof -
  from assms(1,2) have "inferSchemaFromBody body
      = foldl (\<lambda>schema (k, v). js_set k (entry_type v) schema) [] (entries body)"
    by (simp add: inferSchemaFromBody_def)
  then show ?thesis
    by (simp only: map_of_fill [OF assms(3)] map_of.simps)
qed

lemma keys_insert_index: "set (map fst (insert_index k v obj)) = insert k (set (map fst obj))"
  by (induction obj) auto

lemma distinct_insert_index:
  "k \<notin> set (map fst obj) \<Longrightarrow> distinct (map fst obj) \<Longrightarrow>
     distinct (map fst (insert_index k v obj))"
proof (induction obj)
  case Nil
  then show ?case by simp
next
  case (Cons e obj)
  then have ih: "distinct (map fst (insert_index k v obj))" and ne: "k \<noteq> fst e"
    and fresh: "fst e \<notin> set (map fst obj)"
    by auto
  from fresh ne have "fst e \<notin> set (map fst (insert_index k v obj))"
    unfolding keys_insert_index by simp
  with ih Cons.prems show ?case by auto
qed

lemma distinct_js_set: "distinct (map fst obj) \<Longrightarrow> distinct (map fst (js_set k v obj))"
  by (auto simp: js_set_def distinct_update distinct_insert_index)

lemma distinct_fill:
  "distinct (map fst acc) \<Longrightarrow>
     distinct (map fst (foldl (\<lambda>schema (k, v). js_set k (f v) schema) acc kvs))"
  by (induction kvs arbitrary: acc) (auto simp: distinct_js_set)

lemma inferSchemaFromBody_distinct: "distinct (map fst (inferSchemaFromBody obj))"
  by (simp add: inferSchemaFromBody_def distinct_fill)

definition not_json_request :: Request where
  "not_json_request =
     \<lparr> req_resourceType = ''fetch'', req_url = ''https://shop.example/api/log'',
       req_method = ''POST'', req_postData = Some ''not json'', req_postDataJSON = None,
       req_headers = [(''content-type'', ''text/plain'')] \<rparr>"

definition number_request :: Request where
  "number_request =
     \<lparr> req_resourceType = ''xhr'', req_url = ''https://shop.example/api/count'',
       req_method = ''POST'', req_postData = Some ''42'', req_postDataJSON = Some (JNumber 42),
       req_headers = [(''content-type'', ''application/json'')] \<rparr>"

text \<open>
  C6, as stated, fails in its first half: for a body that is not JSON (\<^verbatim>\<open>postDataJSON()\<close>
  throws) and for a body that decodes to the number 42, the record pushed by the handler
  has no schema at all (\<^verbatim>\<open>bodySchema: undefined\<close>), not a one-field schema.
\<close>

theorem body_schema_omitted:
  "map api_bodySchema (discoveredApis [not_json_request, number_request]) = [None, None]
   \<and> map api_postDataSample (discoveredApis [not_json_request, number_request])
       = [Some ''not json'', Some ''42'']"
  by code_simp

text \<open>
  C6, amended. Every request falls under one of two cases. When \<^verbatim>\<open>postDataJSON()\<close>
  throws (a body that is neither form-urlencoded nor JSON) or returns \<^verbatim>\<open>null\<close> (no
  body, or the JSON \<^verbatim>\<open>null\<close>), a number, a string or a boolean, the record's schema is
  omitted. When it returns an object or an array, the record has a schema; its keys are
  the top-level keys of the body (the indices of an array) without \<^verbatim>\<open>__proto__\<close>, which
  the assignment \<^verbatim>\<open>schema[k] = ...\<close> drops, each key once; each key is mapped to one of
  \<^verbatim>\<open>string\<close>, \<^verbatim>\<open>number\<close>, \<^verbatim>\<open>boolean\<close>, \<^verbatim>\<open>array\<close>, \<^verbatim>\<open>object\<close> by the type of its
  value, and a \<^verbatim>\<open>null\<close> value is mapped to \<^verbatim>\<open>string\<close>. (The keys of a decoded object
  are distinct.) The one-field schema \<^verbatim>\<open>{_body: typeof obj}\<close> is what
  \<open>inferSchemaFromBody\<close> returns when it is applied to \<^verbatim>\<open>null\<close> or to a value that is
  not an object; the handler never applies it so.
\<close>

theorem body_schema:
  "((req_postDataJSON r = None
       \<or> (\<exists>j. req_postDataJSON r = Some j \<and> (j = JNull \<or> typeof j \<noteq> ''object'')))
      \<longrightarrow> api_bodySchema (discovered r) = None)
   \<and> (req_postDataJSON r = Some body \<and> body \<noteq> JNull \<and> typeof body = ''object''
        \<and> (\<forall>kvs. body = JObject kvs \<longrightarrow> distinct (map fst kvs))
      \<longrightarrow> (\<exists>schema. api_bodySchema (discovered r) = Some schema
            \<and> distinct (map fst schema)
            \<and> fst ` set schema = fst ` set (entries body) - {''__proto__''}
            \<and> (\<forall>(k, v) \<in> set (entries body). k \<noteq> ''__proto__'' \<longrightarrow>
                  map_of schema k = Some (entry_type v)
                  \<and> entry_type v \<in> {''string'', ''number'', ''boolean'', ''array'', ''object''}
                  \<and> (v = JNull \<longrightarrow> map_of schema k = Some ''string''))))
   \<and> (obj = JNull \<or> typeof obj \<noteq> ''object'' \<longrightarrow> inferSchemaFromBody obj = [(''_body'', typeof obj)])"
proof (intro conjI impI)
  assume "req_postDataJSON r = None
            \<or> (\<exists>j. req_postDataJSON r = Some j \<and> (j = JNull \<or> typeof j \<noteq> ''object''))"
  then show "api_bodySchema (discovered r) = None"
    by (auto simp: discovered_def Let_def)
next
  assume a: "req_postDataJSON r = Some body \<and> body \<noteq> JNull \<and> typeof body = ''object''
               \<and> (\<forall>kvs. body = JObject kvs \<longrightarrow> distinct (map fst kvs))"
  let ?schema = "inferSchemaFromBody body"
  from a have truthy: "json_truthy body" by (cases body) simp_all
  with a have s: "api_bodySchema (discovered r) = Some ?schema"
    by (simp add: discovered_def Let_def)
  have d: "distinct (map fst (entries body))"
  proof (cases body)
    case (JArray vs)
    then show ?thesis by (simp only: array_keys_distinct)
  next
    case (JObject kvs)
    with a show ?thesis by simp
  qed simp_all
  from a have look: "map_of ?schema k
      = (if k \<noteq> ''__proto__'' \<and> k \<in> fst ` set (entries body)
         then map_option entry_type (map_of (entries body) k) else None)" for k
    by (intro inferSchemaFromBody_lookup d) simp_all
  have keys: "fst ` set ?schema = fst ` set (entries body) - {''__proto__''}"
  proof -
    have "map_of (entries body) k \<noteq> None" if "k \<in> fst ` set (entries body)" for k
      using that by (simp add: map_of_eq_None_iff)
    then have "dom (map_of ?schema) = fst ` set (entries body) - {''__proto__''}"
      unfolding dom_def look by auto
    then show ?thesis by (simp add: dom_map_of_conv_image_fst)
  qed
  have null: "entry_type JNull = ''string''" by (simp add: entry_type_def)
  have each: "\<forall>(k, v) \<in> set (entries body). k \<noteq> ''__proto__'' \<longrightarrow>
                map_of ?schema k = Some (entry_type v)
                \<and> entry_type v \<in> {''string'', ''number'', ''boolean'', ''array'', ''object''}
                \<and> (v = JNull \<longrightarrow> map_of ?schema k = Some ''string'')"
  proof (clarify, intro conjI impI)
    fix k v
    assume kv: "(k, v) \<in> set (entries body)" and k: "k \<noteq> ''__proto__''"
    from d kv have "map_of (entries body) k = Some v" by (rule map_of_is_SomeI)
    moreover from kv have "k \<in> fst ` set (entries body)" by force
    ultimately show m: "map_of ?schema k = Some (entry_type v)"
      using k by (simp add: look)
    show "entry_type v \<in> {''string'', ''number'', ''boolean'', ''array'', ''object''}"
      by (rule entry_type_range)
    assume "v = JNull"
    with m null show "map_of ?schema k = Some ''string''" by (simp only:)
  qed
  from s keys each inferSchemaFromBody_distinct [of body]
  show "\<exists>schema. api_bodySchema (discovered r) = Some schema
            \<and> distinct (map fst schema)
            \<and> fst ` set schema = fst ` set (entries body) - {''__proto__''}
            \<and> (\<forall>(k, v) \<in> set (entries body). k \<noteq> ''__proto__'' \<longrightarrow>
                  map_of schema k = Some (entry_type v)
                  \<and> entry_type v \<in> {''string'', ''number'', ''boolean'', ''array'', ''object''}
                  \<and> (v = JNull \<longrightarrow> map_of schema k = Some ''string''))"
    by blast
next
  assume "obj = JNull \<or> typeof obj \<noteq> ''object''"
  then show "inferSchemaFromBody obj = [(''_body'', typeof obj)]"
    by (auto simp: inferSchemaFromBody_def)
qed

text \<open>The body of the specification's example.\<close>

definition search_body :: "(string \<times> json) list" where
  "search_body =
     [(''q'', JString ''red shoes''), (''max'', JNumber 100), (''tags'', JArray [JString ''a'']),
      (''active'', JBool True), (''note'', JNull)]"

definition search_request :: Request where
  "search_request =
     \<lparr> req_resourceType = ''fetch'', req_url = ''https://shop.example/api/search'',
       req_method = ''POST'',
       req_postData = Some ''{\"q\":\"red shoes\",\"max\":100,\"tags\":[\"a\"],\"active\":true,\"note\":null}'',
       req_postDataJSON = Some (JObject search_body),
       req_headers = [(''content-type'', ''application/json'')] \<rparr>"

text \<open>
  A request with body \<open>b\<close> decoded to \<open>j\<close>: an array body, a body with the key
  \<^verbatim>\<open>__proto__\<close>, and a form-urlencoded body, which Playwright decodes to an object.
\<close>

definition post_request :: "string \<Rightarrow> string \<Rightarrow> json \<Rightarrow> Request" where
  "post_request ctype b j =
     \<lparr> req_resourceType = ''xhr'', req_url = ''https://shop.example/api/items'',
       req_method = ''POST'', req_postData = Some b, req_postDataJSON = Some j,
       req_headers = [(''content-type'', ctype)] \<rparr>"

definition array_request :: Request where
  "array_request =
     post_request ''application/json'' ''[1,\"a\"]'' (JArray [JNumber 1, JString ''a''])"

definition proto_request :: Request where
  "proto_request =
     post_request ''application/json'' ''{\"__proto__\":1,\"k\":2}''
       (JObject [(''__proto__'', JNumber 1), (''k'', JNumber 2)])"

definition form_request :: Request where
  "form_request =
     post_request ''application/x-www-form-urlencoded'' ''q=red+shoes''
       (JObject [(''q'', JString ''red shoes'')])"

theorem body_schema_witness:
  "api_bodySchema (discovered search_request)
     = Some [(''q'', ''string''), (''max'', ''number''), (''tags'', ''array''),
             (''active'', ''boolean''), (''note'', ''string'')]
   \<and> api_bodySchema (discovered not_json_request) = None
   \<and> api_bodySchema (discovered array_request) = Some [(''0'', ''number''), (''1'', ''string'')]
   \<and> api_bodySchema (discovered proto_request) = Some [(''k'', ''number'')]
   \<and> api_bodySchema (discovered form_request) = Some [(''q'', ''string'')]
   \<and> inferSchemaFromBody (JString ''x'') = [(''_body'', ''string'')]"
proof -
  have e: "api_bodySchema (discovered search_request)
     = Some [(''q'', ''string''), (''max'', ''number''), (''tags'', ''array''),
             (''active'', ''boolean''), (''note'', ''string'')]"
    "api_bodySchema (discovered array_request) = Some [(''0'', ''number''), (''1'', ''string'')]"
    "api_bodySchema (discovered proto_request) = Some [(''k'', ''number'')]"
    "api_bodySchema (discovered form_request) = Some [(''q'', ''string'')]"
    by code_simp+
  have j: "req_postDataJSON search_request = Some (JObject search_body)
           \<and> JObject search_body \<noteq> JNull \<and> typeof (JObject search_body) = ''object''
           \<and> (\<forall>kvs. JObject search_body = JObject kvs \<longrightarrow> distinct (map fst kvs))"
    by (simp add: search_request_def search_body_def)
  have n: "req_postDataJSON not_json_request = None
             \<or> (\<exists>j. req_postDataJSON not_json_request = Some j
                    \<and> (j = JNull \<or> typeof j \<noteq> ''object''))"
    by (simp add: not_json_request_def)
  have x: "JString ''x'' = JNull \<or> typeof (JString ''x'') \<noteq> ''object''"
    by simp
  note th = body_schema [of not_json_request "JObject search_body" "JString ''x''"]
  from th [THEN conjunct1, THEN mp, OF n]
  have 1: "api_bodySchema (discovered not_json_request) = None" .
  from th [THEN conjunct2, THEN conjunct2, THEN mp, OF x]
  have 3: "inferSchemaFromBody (JString ''x'') = [(''_body'', ''string'')]"
    by simp
  note th' = body_schema [of search_request "JObject search_body" JNull]
  from th' [THEN conjunct2, THEN conjunct1, THEN mp, OF j]
  obtain schema where "api_bodySchema (discovered search_request) = Some schema"
    by (elim exE conjE)
  from e 1 3 show ?thesis by (intro conjI)
qed

subsection \<open>Deduplication\<close>

definition api_key :: "DiscoveredApi \<Rightarrow> string" where
  "api_key a = api_method a @ '' '' @ api_url a"

definition seen_ok :: "DiscoveredApi list \<times> string list \<Rightarrow> bool" where
  "seen_ok st = (set (snd st) = api_key ` set (fst st))"

lemma api_key_discovered: "api_key (discovered r) = request_key r"
  by (simp add: api_key_def discovered_def request_key_def Let_def)

lemma discovered_method_url:
  "api_method (discovered r) = req_method r" "api_url (discovered r) = req_url r"
  by (simp_all add: discovered_def Let_def)

lemma seen_ok_step: "seen_ok st \<Longrightarrow> seen_ok (on_requestfinished st r)"
  by (auto simp: seen_ok_def on_requestfinished_def set_add_def api_key_discovered)

lemma key_prefix: "CHR '' '' \<notin> set m \<Longrightarrow> takeWhile (\<lambda>c. c \<noteq> CHR '' '') (m @ '' '' @ u) = m"
  by (induction m) auto

lemma key_inj:
  assumes "CHR '' '' \<notin> set m1" "CHR '' '' \<notin> set m2" "m1 @ '' '' @ u1 = m2 @ '' '' @ u2"
  shows "m1 = m2 \<and> u1 = u2"
proof -
  from assms(3) have "takeWhile (\<lambda>c. c \<noteq> CHR '' '') (m1 @ '' '' @ u1)
                      = takeWhile (\<lambda>c. c \<noteq> CHR '' '') (m2 @ '' '' @ u2)"
    by (simp only:)
  then have "m1 = m2"
    unfolding key_prefix [OF assms(1)] key_prefix [OF assms(2)] .
  with assms(3) show ?thesis by simp
qed

lemma later_duplicates_dropped:
  "seen_ok st \<Longrightarrow> filter (\<lambda>a. api_method a = m \<and> api_url a = u) (fst st) = [x] \<Longrightarrow>
     filter (\<lambda>a. api_method a = m \<and> api_url a = u) (fst (foldl on_requestfinished st rs)) = [x]"
proof (induction rs arbitrary: st)
  case Nil
  then show ?case by simp
next
  case (Cons r rs)
  let ?Q = "\<lambda>a. api_method a = m \<and> api_url a = u"
  from Cons.prems(2) have "x \<in> set (filter ?Q (fst st))" by simp
  then have x: "x \<in> set (fst st)" and qx: "api_method x = m" "api_url x = u" by auto
  with Cons.prems(1) have seen: "m @ '' '' @ u \<in> set (snd st)"
    by (auto simp: seen_ok_def api_key_def)
  have "filter ?Q (fst (on_requestfinished st r)) = [x]"
  proof (cases "req_method r = m \<and> req_url r = u")
    case True
    with seen have "request_key r \<in> set (snd st)" by (simp add: request_key_def)
    then have "on_requestfinished st r = st" by (simp add: on_requestfinished_def)
    with Cons.prems(2) show ?thesis by simp
  next
    case False
    with Cons.prems(2) show ?thesis
      by (auto simp: on_requestfinished_def discovered_method_url)
  qed
  with Cons.IH [OF seen_ok_step [OF Cons.prems(1)]] show ?case by simp
qed

lemma first_occurrence_kept:
  "seen_ok st \<Longrightarrow> \<forall>a \<in> set (fst st). CHR '' '' \<notin> set (api_method a) \<Longrightarrow>
   \<forall>r \<in> set rs. CHR '' '' \<notin> set (req_method r) \<Longrightarrow>
   filter (\<lambda>a. api_method a = m \<and> api_url a = u) (fst st) = [] \<Longrightarrow>
   List.find (\<lambda>r. req_resourceType r \<in> set API_RESOURCE_TYPES \<and> req_method r = m \<and> req_url r = u) rs
     = Some r0 \<Longrightarrow>
   filter (\<lambda>a. api_method a = m \<and> api_url a = u) (fst (foldl on_requestfinished st rs))
     = [discovered r0]"
proof (induction rs arbitrary: st)
  case Nil
  then show ?case by simp
next
  case (Cons r rs)
  let ?Q = "\<lambda>a. api_method a = m \<and> api_url a = u"
  let ?P = "\<lambda>r. req_resourceType r \<in> set API_RESOURCE_TYPES \<and> req_method r = m \<and> req_url r = u"
  have ok': "seen_ok (on_requestfinished st r)"
    by (rule seen_ok_step [OF Cons.prems(1)])
  show ?case
  proof (cases "?P r")
    case True
    with Cons.prems(5) have r0: "r0 = r" by simp
    from True Cons.prems(3) have nosp: "CHR '' '' \<notin> set m" by auto
    have fresh: "request_key r \<notin> set (snd st)"
    proof
      assume "request_key r \<in> set (snd st)"
      with Cons.prems(1) obtain a where a: "a \<in> set (fst st)" and k: "api_key a = request_key r"
        by (auto simp: seen_ok_def)
      from a Cons.prems(2) have "CHR '' '' \<notin> set (api_method a)" by blast
      with k True nosp have "api_method a = m \<and> api_url a = u"
        using key_inj [of "api_method a" m "api_url a" u]
        by (simp add: api_key_def request_key_def)
      with a have "a \<in> set (filter ?Q (fst st))" by simp
      with Cons.prems(4) show False by simp
    qed
    with True Cons.prems(4) have "filter ?Q (fst (on_requestfinished st r)) = [discovered r]"
      by (simp add: on_requestfinished_def discovered_method_url)
    from later_duplicates_dropped [OF ok' this] r0 show ?thesis by simp
  next
    case False
    with Cons.prems(5) have f: "List.find ?P rs = Some r0" by simp
    from Cons.prems(2,3) have sp: "\<forall>a \<in> set (fst (on_requestfinished st r)). CHR '' '' \<notin> set (api_method a)"
      by (auto simp: on_requestfinished_def discovered_method_url)
    from Cons.prems(3) have sp': "\<forall>r \<in> set rs. CHR '' '' \<notin> set (req_method r)" by simp
    from False Cons.prems(4) have e: "filter ?Q (fst (on_requestfinished st r)) = []"
      by (auto simp: on_requestfinished_def discovered_method_url)
    from Cons.IH [OF ok' sp sp' e f] show ?thesis by simp
  qed
qed

text \<open>
  C4. Take the requests of one capture window in the order they finished, with method
  names free of spaces (HTTP method tokens are). If \<open>r0\<close> is the first XHR or fetch
  request with method \<open>m\<close> and URL \<open>u\<close>, then \<open>discoveredApis\<close> holds exactly one
  record for \<open>(m, u)\<close>, the one built from \<open>r0\<close>, and its sample body is the body of
  \<open>r0\<close>: later requests with the same pair leave no record.
\<close>

theorem duplicates_collapse_to_first:
  assumes "\<forall>r \<in> set requests. CHR '' '' \<notin> set (req_method r)"
    and "List.find (\<lambda>r. req_resourceType r \<in> set API_RESOURCE_TYPES
                        \<and> req_method r = m \<and> req_url r = u) requests = Some r0"
  shows "filter (\<lambda>a. api_method a = m \<and> api_url a = u) (discoveredApis requests) = [discovered r0]
         \<and> api_postDataSample (discovered r0) = or_null (req_postData r0)"
proof -
  have "seen_ok ([], [])" by (simp add: seen_ok_def)
  from first_occurrence_kept [OF this _ assms(1) _ assms(2)]
  show ?thesis by (simp add: discoveredApis_def discovered_def Let_def)
qed

text \<open>
  One page load that posts to the same URL four times: once as a document load, then
  three times as an API call with different bodies.
\<close>

definition search_call :: "string \<Rightarrow> string \<Rightarrow> Request" where
  "search_call ty body =
     \<lparr> req_resourceType = ty, req_url = ''https://shop.example/api/search'',
       req_method = ''POST'', req_postData = Some body, req_postDataJSON = None,
       req_headers = [] \<rparr>"

definition capture_window :: "Request list" where
  "capture_window =
     [search_call ''document'' ''page'', search_call ''xhr'' ''first'',
      search_call ''fetch'' ''second'', search_call ''xhr'' ''third'']"


theorem duplicates_collapse_to_first_witness:
  "map api_postDataSample (discoveredApis capture_window) = [Some ''first'']
   \<and> filter (\<lambda>a. api_method a = ''POST'' \<and> api_url a = ''https://shop.example/api/search'')
        (discoveredApis capture_window) = [discovered (search_call ''xhr'' ''first'')]"
proof -
  have h1: "\<forall>r \<in> set capture_window. CHR '' '' \<notin> set (req_method r)"
    by (simp add: capture_window_def search_call_def)
  have h2: "List.find (\<lambda>r. req_resourceType r \<in> set API_RESOURCE_TYPES
                        \<and> req_method r = ''POST'' \<and> req_url r = ''https://shop.example/api/search'')
              capture_window = Some (search_call ''xhr'' ''first'')"
    by (simp add: capture_window_def search_call_def API_RESOURCE_TYPES_def)
  have e: "map api_postDataSample (discoveredApis capture_window) = [Some ''first'']"
    by code_simp
  from duplicates_collapse_to_first [OF h1 h2] e show ?thesis by simp
qed

section \<open>Properties of the browser session\<close>

text \<open>A Playwright whose every call succeeds, on unit handles, showing a fixed document.\<close>

definition stub_playwright :: "dom \<Rightarrow> (unit, unit, unit) Playwright" where
  "stub_playwright d =
     \<lparr> chromium_launch = (\<lambda>headless args. Inr ()),
       newContext = (\<lambda>b. Inr ()),
       newPage = (\<lambda>c. Inr ()),
       locator_throws = (\<lambda>p s. False),
       locator_click = (\<lambda>p l t. Inl ''Timeout 10000ms exceeded.''),
       locator_fill = (\<lambda>p l v t. Inl ''Timeout 8000ms exceeded.''),
       page_content = (\<lambda>p. Inr d),
       page_url = (\<lambda>p. ''about:blank'') \<rparr>"

definition closed_session :: "(unit, unit) Session" where
  "closed_session = \<lparr> browser = None, page = None \<rparr>"

definition open_session :: "(unit, unit) Session" where
  "open_session = \<lparr> browser = Some (), page = Some () \<rparr>"

text \<open>
  C9. Calling \<open>launch\<close> while a browser is open returns the ok result
  \<^verbatim>\<open>Browser already open\<close>, raises nothing, and leaves the module state (both
  handles) as it was; the answer does not depend on Playwright, so no second browser is
  launched.
\<close>

theorem launch_idempotent:
  "browser s \<noteq> None \<Longrightarrow> launch pw options s = (Inr (OkMessage ''Browser already open''), s)"
  by (simp add: launch_def)

theorem launch_idempotent_witness:
  "browser open_session \<noteq> None
   \<and> launch (stub_playwright []) (Some True) open_session
       = (Inr (OkMessage ''Browser already open''), open_session)
   \<and> snd (launch (stub_playwright []) None closed_session) = open_session"
  using launch_idempotent [of open_session "stub_playwright []" "Some True"]
  by (simp add: open_session_def closed_session_def launch_def stub_playwright_def)

lemma click_not_found:
  "page s = Some p \<Longrightarrow> trim target \<noteq> [] \<Longrightarrow> (\<And>l. locator_click pw p l 10000 = Inl e) \<Longrightarrow>
     click pw s target = Inl (PlaywrightError e)"
  by (simp add: click_def Let_def)

lemma fill_not_found:
  "page s = Some p \<Longrightarrow> (\<And>l. locator_fill pw p l v 8000 = Inl e) \<Longrightarrow>
     fill pw s field v = Inl (PlaywrightError e)"
  by (simp add: fill_def Let_def)

text \<open>
  C5. Without a page (before \<open>launch\<close>, or after \<open>close\<close>), \<open>click\<close> and \<open>fill\<close>
  return the error \<^verbatim>\<open>Browser not launched. Call browser_launch first.\<close> whatever
  Playwright would do (no Playwright call is made, so nothing is awaited). With a page,
  neither of them ever returns that error; in particular a click whose target is not
  found returns the rejection of \<^verbatim>\<open>locator.click\<close>, a different error.
\<close>

theorem click_fill_precondition:
  "(page s = None \<longrightarrow>
      click pw s target = Inl not_launched \<and> fill pw s field v = Inl not_launched)
   \<and> (page s \<noteq> None \<longrightarrow>
      click pw s target \<noteq> Inl not_launched \<and> fill pw s field v \<noteq> Inl not_launched)
   \<and> (\<forall>p e. page s = Some p \<and> trim target \<noteq> [] \<and> (\<forall>l. locator_click pw p l 10000 = Inl e)
         \<longrightarrow> click pw s target = Inl (PlaywrightError e))"
proof (intro conjI impI allI)
  assume "page s = None"
  then show "click pw s target = Inl not_launched" "fill pw s field v = Inl not_launched"
    by (simp_all add: click_def fill_def)
next
  assume "page s \<noteq> None"
  then obtain p where p: "page s = Some p" by blast
  show "click pw s target \<noteq> Inl not_launched"
    by (simp add: click_def p Let_def not_launched_def split: sum.splits option.splits)
  show "fill pw s field v \<noteq> Inl not_launched"
    by (simp add: fill_def p Let_def not_launched_def split: sum.splits)
next
  fix p e
  assume "page s = Some p \<and> trim target \<noteq> [] \<and> (\<forall>l. locator_click pw p l 10000 = Inl e)"
  then show "click pw s target = Inl (PlaywrightError e)"
    by (simp add: click_not_found)
qed

theorem click_fill_precondition_witness:
  "page closed_session = None
   \<and> click (stub_playwright []) closed_session ''Search'' = Inl not_launched
   \<and> fill (stub_playwright []) closed_session ''q'' ''shoes'' = Inl not_launched
   \<and> page open_session = Some ()
   \<and> click (stub_playwright []) open_session ''Search''
       = Inl (PlaywrightError ''Timeout 10000ms exceeded.'')
   \<and> click (stub_playwright []) open_session ''Search'' \<noteq> Inl not_launched"
proof -
  have h: "page closed_session = None" by (simp add: closed_session_def)
  have o: "page open_session = Some ()" by (simp add: open_session_def)
  have t: "trim ''Search'' \<noteq> []" by code_simp
  have l: "\<forall>l. locator_click (stub_playwright []) () l 10000 = Inl ''Timeout 10000ms exceeded.''"
    by (simp add: stub_playwright_def)
  from click_fill_precondition [of closed_session "stub_playwright []" "''Search''" "''q''" "''shoes''"] h
  have 1: "click (stub_playwright []) closed_session ''Search'' = Inl not_launched"
    and 2: "fill (stub_playwright []) closed_session ''q'' ''shoes'' = Inl not_launched"
    by simp_all
  from click_fill_precondition [of open_session "stub_playwright []" "''Search''" "''q''" "''shoes''"] o t l
  have 3: "click (stub_playwright []) open_session ''Search''
             = Inl (PlaywrightError ''Timeout 10000ms exceeded.'')"
    and 4: "click (stub_playwright []) open_session ''Search'' \<noteq> Inl not_launched"
    by (simp_all add: not_launched_def)
  from h o 1 2 3 4 show ?thesis by simp
qed

text \<open>
  C7, amended. Whatever the page, a snapshot lists at most 50 buttons and at most 80
  links. Forms are not capped: the snapshot has one entry for every \<^verbatim>\<open>form\<close> element
  of the page.
\<close>

theorem snapshot_bounds:
  "getSnapshot pw s = Inr snap \<Longrightarrow>
     length (snap_buttons snap) \<le> 50 \<and> length (snap_links snap) \<le> 80
     \<and> (\<exists>p d. page s = Some p \<and> page_content pw p = Inr d
          \<and> length (snap_forms snap) = length (select d [Tag ''form'']))"
  by (auto simp: getSnapshot_def slice0_def Let_def split: option.splits sum.splits)

lemma select_replicate_form:
  "select (replicate n (Element ''form'' [] [])) [Tag ''form''] = replicate n (Element ''form'' [] [])"
  by (induction n) (simp_all add: select_def all_elements_def matches_def)

lemma snapshot_many_forms:
  "\<exists>snap. getSnapshot (stub_playwright (replicate n (Element ''form'' [] []))) open_session = Inr snap
      \<and> length (snap_forms snap) = n"
  by (simp add: getSnapshot_def open_session_def stub_playwright_def Let_def select_replicate_form)

text \<open>
  C7, as stated, fails for forms: no constant bounds the number of forms of a
  snapshot, since a page with \<open>N + 1\<close> forms gives a snapshot with \<open>N + 1\<close> forms.
\<close>

theorem snapshot_forms_unbounded:
  "\<not> (\<exists>N. \<forall>(pw :: (unit, unit, unit) Playwright) s snap.
          getSnapshot pw s = Inr snap \<longrightarrow> length (snap_forms snap) \<le> N)"
proof
  assume "\<exists>N. \<forall>(pw :: (unit, unit, unit) Playwright) s snap.
          getSnapshot pw s = Inr snap \<longrightarrow> length (snap_forms snap) \<le> N"
  then obtain N where b: "\<And>(pw :: (unit, unit, unit) Playwright) s snap.
          getSnapshot pw s = Inr snap \<Longrightarrow> length (snap_forms snap) \<le> N"
    by blast
  from snapshot_many_forms [of "Suc N"] obtain snap where
    "getSnapshot (stub_playwright (replicate (Suc N) (Element ''form'' [] []))) open_session = Inr snap"
    and n: "length (snap_forms snap) = Suc N"
    by blast
  from b [OF this(1)] n show False by simp
qed

definition three_forms :: dom where
  "three_forms = [Element ''form'' [] [], Element ''button'' [] [TextNode ''Go''], Element ''form'' [] [], Element ''form'' [] []]"


theorem snapshot_bounds_witness:
  "(\<exists>snap. getSnapshot (stub_playwright three_forms) open_session = Inr snap
     \<and> length (snap_buttons snap) \<le> 50 \<and> length (snap_links snap) \<le> 80
     \<and> length (snap_forms snap) = 3)"
proof -
  have e: "getSnapshot (stub_playwright three_forms) open_session =
    Inr \<lparr>snap_url = ''about:blank'', snap_title = [],
       snap_buttons = [\<lparr>sb_type = ''button'', sb_text = ''Go'', sb_tag = ''button''\<rparr>],
       snap_links = [],
       snap_forms = [\<lparr>sf_type = ''form'', sf_submitLabel = ''Submit'', sf_inputs = []\<rparr>,
          \<lparr>sf_type = ''form'', sf_submitLabel = ''Submit'', sf_inputs = []\<rparr>,
          \<lparr>sf_type = ''form'', sf_submitLabel = ''Submit'', sf_inputs = []\<rparr>]\<rparr>"
    by code_simp
  from snapshot_bounds [OF e] e show ?thesis by simp
qed

end
